theory Spec2Isabelle
  imports Main "HOL-Library.Word"
begin

section \<open>Errors\<close>

text \<open>
  The error values of package \<^verbatim>\<open>things\<close> that \<^verbatim>\<open>things/postgres/things.go\<close> names
  (\<^verbatim>\<open>things.ErrMalformedEntity\<close>, ...), one constructor for each; the package declares them
  outside the file.
\<close>

datatype err_kind =
    ErrMalformedEntity
  | ErrConflict
  | ErrNotFound
  | ErrCreateEntity
  | ErrUpdateEntity
  | ErrSelectEntity
  | ErrViewEntity
  | ErrRemoveEntity

text \<open>
  Modelled from the spec: \<^verbatim>\<open>errors.Wrap\<close> of package \<^verbatim>\<open>pkg/errors\<close>, whose code is not in
  the file. Section 7 of the specification: every failure is wrapped with one of the kinds
  plus the underlying cause, and callers branch on the kind only. \<open>Wrap k c\<close> is the
  error of kind \<open>k\<close> with cause \<open>c\<close>.

  The other constructors are the values of Go's \<^verbatim>\<open>error\<close> that the file tells apart: a
  bare sentinel (\<^verbatim>\<open>things.ErrNotFound\<close>), a \<^verbatim>\<open>*pq.Error\<close> (the code reads nothing from it
  but \<^verbatim>\<open>Code.Name()\<close>, kept here as the string), \<^verbatim>\<open>sql.ErrNoRows\<close>, and any other error
  of a library or a driver.
\<close>

datatype error =
    Sentinel err_kind
  | PqError string
  | SqlErrNoRows
  | OtherError string
  | Wrap err_kind error

text \<open>The kind a caller branches on: the outermost wrapper, or the sentinel itself.\<close>

fun kind_of :: "error \<Rightarrow> err_kind option" where
  "kind_of (Sentinel k) = Some k"
| "kind_of (Wrap k c) = Some k"
| "kind_of (PqError n) = None"
| "kind_of SqlErrNoRows = None"
| "kind_of (OtherError m) = None"

text \<open>
  \<^verbatim>\<open>errors.Wrap\<close> on an \<^verbatim>\<open>err\<close> that may be nil, as line 100 calls it: with nothing to
  wrap, the result is taken to be the wrapper itself.
\<close>

fun errors_Wrap :: "err_kind \<Rightarrow> error option \<Rightarrow> error" where
  "errors_Wrap k None = Sentinel k"
| "errors_Wrap k (Some c) = Wrap k c"

text \<open>The constants of lines 18 to 23.\<close>

definition errDuplicate :: string where
  "errDuplicate = ''unique_violation''"

definition errFK :: string where
  "errFK = ''foreign_key_violation''"

definition errInvalid :: string where
  "errInvalid = ''invalid_text_representation''"

definition errTruncation :: string where
  "errTruncation = ''string_data_right_truncation''"

section \<open>Things and rows\<close>

text \<open>
  A Go slice is nil or holds elements; \<^verbatim>\<open>[]things.Thing{}\<close> is \<open>Slice []\<close>, which is
  not nil.
\<close>

datatype 'a slice = NilSlice | Slice "'a list"

fun elems :: "'a slice \<Rightarrow> 'a list" where
  "elems NilSlice = []"
| "elems (Slice xs) = xs"

text \<open>\<^verbatim>\<open>append(items, x)\<close>.\<close>

fun append_slice :: "'a slice \<Rightarrow> 'a \<Rightarrow> 'a slice" where
  "append_slice NilSlice x = Slice [x]"
| "append_slice (Slice xs) x = Slice (xs @ [x])"

text \<open>
  The values a \<^verbatim>\<open>map[string]interface{}\<close> can hold: \<^verbatim>\<open>nil\<close>, a \<^verbatim>\<open>bool\<close>, a value of a Go
  integer type (\<open>JInt\<close>), a \<^verbatim>\<open>float64\<close> (\<open>JFloat i\<close> is the \<^verbatim>\<open>float64\<close> of value \<open>i\<close>: the
  floats of integral value are the ones modelled), a \<^verbatim>\<open>string\<close>, a \<^verbatim>\<open>[]interface{}\<close>, a
  \<^verbatim>\<open>map[string]interface{}\<close>, and \<open>JChan\<close> for a Go value that \<^verbatim>\<open>encoding/json\<close> cannot
  encode (a channel, a function).
\<close>

datatype jvalue =
    JNull
  | JBool bool
  | JInt int
  | JFloat int
  | JString string
  | JArray "jvalue list"
  | JObject "(string \<times> jvalue) list"
  | JChan

text \<open>
  \<^verbatim>\<open>things.Metadata\<close> is a \<^verbatim>\<open>map[string]interface{}\<close>: \<open>None\<close> is the nil map,
  \<open>Some kvs\<close> a map with the entries \<open>kvs\<close>. \<open>len_md\<close> is Go's \<^verbatim>\<open>len\<close>.
\<close>

type_synonym Metadata = "(string \<times> jvalue) list option"

fun len_md :: "Metadata \<Rightarrow> nat" where
  "len_md None = 0"
| "len_md (Some kvs) = length kvs"

record Thing =
  ID :: string
  Owner :: string
  Name :: string
  Key :: string
  Metadata :: Metadata

text \<open>The struct \<^verbatim>\<open>dbThing\<close> of lines 336 to 342; \<^verbatim>\<open>[]byte\<close> is a string of bytes.\<close>

record dbThing =
  dbID :: string
  dbOwner :: string
  dbName :: string
  dbKey :: string
  dbMetadata :: string

text \<open>
  \<^verbatim>\<open>encoding/json\<close> is a library, not code of the repository: \<^verbatim>\<open>json.Marshal\<close> and
  \<^verbatim>\<open>json.Unmarshal\<close> (into a \<^verbatim>\<open>map[string]interface{}\<close>) are parameters of the model.
\<close>

record encoding_json =
  Marshal :: "Metadata \<Rightarrow> error + string"
  Unmarshal :: "string \<Rightarrow> error + Metadata"

text \<open>Lines 344 to 361.\<close>

definition toDBThing :: "encoding_json \<Rightarrow> Thing \<Rightarrow> error + dbThing" where
  \<open>toDBThing js th =
     (let data = ''{}'' in
      if len_md (Metadata th) > 0 then
        (case Marshal js (Metadata th) of
           Inl err \<Rightarrow> Inl (Wrap ErrMalformedEntity err)
         | Inr b \<Rightarrow>
             Inr \<lparr>dbID = ID th, dbOwner = Owner th, dbName = Name th, dbKey = Key th,
                  dbMetadata = b\<rparr>)
      else
        Inr \<lparr>dbID = ID th, dbOwner = Owner th, dbName = Name th, dbKey = Key th,
             dbMetadata = data\<rparr>)\<close>

text \<open>Lines 363 to 376.\<close>

definition toThing :: "encoding_json \<Rightarrow> dbThing \<Rightarrow> error + Thing" where
  "toThing js dbth =
     (case Unmarshal js (dbMetadata dbth) of
        Inl err \<Rightarrow> Inl (Wrap ErrMalformedEntity err)
      | Inr metadata \<Rightarrow>
          Inr \<lparr>ID = dbID dbth, Owner = dbOwner dbth, Name = dbName dbth, Key = dbKey dbth,
               Metadata = metadata\<rparr>)"

section \<open>The store\<close>

text \<open>
  The statements the repository sends, named instead of spelled out. Those run with
  \<^verbatim>\<open>NamedExecContext\<close>:
  \<^item> \<open>InsertThing\<close>: \<^verbatim>\<open>INSERT INTO things (id, owner, name, key, metadata) VALUES (:id, :owner, :name, :key, :metadata)\<close>
  \<^item> \<open>UpdateThing\<close>: \<^verbatim>\<open>UPDATE things SET name = :name, metadata = :metadata WHERE owner = :owner AND id = :id\<close>
  \<^item> \<open>UpdateThingKey\<close>: \<^verbatim>\<open>UPDATE things SET key = :key WHERE owner = :owner AND id = :id\<close>
  \<^item> \<open>DeleteThing\<close>: \<^verbatim>\<open>DELETE FROM things WHERE id = :id AND owner = :owner\<close>

  The query for one row, run with \<^verbatim>\<open>QueryRowxContext\<close>:
  \<^item> \<open>SelectThingByID\<close>: \<^verbatim>\<open>SELECT name, key, metadata FROM things WHERE id = $1 AND owner = $2\<close>

  The listing queries, with the two fragments \<^verbatim>\<open>fmt.Sprintf\<close> puts in, in its order:
  \<^item> \<open>SelectThings mq nq\<close>: \<^verbatim>\<open>SELECT id, name, key, metadata FROM things WHERE owner = :owner mq nq ORDER BY id LIMIT :limit OFFSET :offset\<close>
  \<^item> \<open>CountThings nq mq\<close>: \<^verbatim>\<open>SELECT COUNT(*) FROM things WHERE owner = :owner nq mq\<close>
\<close>

datatype statement =
    InsertThing
  | UpdateThing
  | UpdateThingKey
  | DeleteThing

datatype row_query = SelectThingByID

datatype rows_query =
    SelectThings string string
  | CountThings string string

text \<open>
  \<^verbatim>\<open>sql.Result\<close>: what \<^verbatim>\<open>RowsAffected()\<close> returns, a count and an error (nil when the
  driver can tell the count).
\<close>

record sql_Result =
  affected :: "64 word"
  affected_err :: "error option"

definition RowsAffected :: "sql_Result \<Rightarrow> 64 word \<times> error option" where
  "RowsAffected res = (affected res, affected_err res)"

text \<open>The named parameters of the listing queries (lines 189 to 195).\<close>

record Params =
  p_owner :: string
  p_limit :: "64 word"
  p_offset :: "64 word"
  p_name :: string
  p_metadata :: string

text \<open>
  The columns \<^verbatim>\<open>StructScan\<close> reads from one row: name, key and metadata for the query by
  id, and the id before them for the listing query. \<^verbatim>\<open>StructScan\<close> may fail on a row.
\<close>

type_synonym thing_cols = "string \<times> string \<times> string"
type_synonym page_cols = "string \<times> string \<times> string \<times> string"

text \<open>
  The interface \<^verbatim>\<open>Database\<close>, declared outside the file, with the methods the file
  calls. The store is a state \<open>'s\<close> that every call may change, and
  \<open>'t\<close> is the transaction \<^verbatim>\<open>BeginTxx\<close> returns.
  \<^item> \<open>QueryRowxContext\<close> stands for \<^verbatim>\<open>QueryRowxContext(ctx, q, id, owner).StructScan(&dbth)\<close>;
  \<^item> \<open>NamedQueryContext\<close> returns the rows the loop over \<^verbatim>\<open>rows.Next()\<close> scans, each the
    outcome of its \<^verbatim>\<open>StructScan\<close>.
\<close>

record ('s, 't) Database =
  BeginTxx :: "'s \<Rightarrow> (error + 't) \<times> 's"
  TxNamedExecContext :: "'t \<Rightarrow> statement \<Rightarrow> dbThing \<Rightarrow> 's \<Rightarrow> (error + sql_Result) \<times> 's"
  TxRollback :: "'t \<Rightarrow> 's \<Rightarrow> error option \<times> 's"
  TxCommit :: "'t \<Rightarrow> 's \<Rightarrow> error option \<times> 's"
  NamedExecContext :: "statement \<Rightarrow> dbThing \<Rightarrow> 's \<Rightarrow> (error + sql_Result) \<times> 's"
  QueryRowxContext :: "row_query \<Rightarrow> string \<Rightarrow> string \<Rightarrow> 's \<Rightarrow> (error + thing_cols) \<times> 's"
  NamedQueryContext :: "rows_query \<Rightarrow> Params \<Rightarrow> 's \<Rightarrow> (error + (error + page_cols) list) \<times> 's"

section \<open>The repository\<close>

text \<open>
  The loop of \<^verbatim>\<open>Save\<close> (lines 48 to 68) over the Things still to insert: the error it
  returns with, or \<open>None\<close> when every insert went through.
\<close>

fun Save_loop ::
  "encoding_json \<Rightarrow> ('s, 't) Database \<Rightarrow> 't \<Rightarrow> Thing list \<Rightarrow> 's \<Rightarrow> error option \<times> 's" where
  "Save_loop js db tx [] s = (None, s)"
| "Save_loop js db tx (thing # rest) s =
     (case toDBThing js thing of
        Inl err \<Rightarrow> (Some (Wrap ErrCreateEntity err), s)
      | Inr dbth \<Rightarrow>
          (case TxNamedExecContext db tx InsertThing dbth s of
             (Inl err, s1) \<Rightarrow>
               (let s2 = snd (TxRollback db tx s1) in
                (case err of
                   PqError name \<Rightarrow>
                     if name = errInvalid \<or> name = errTruncation
                       then (Some (Wrap ErrMalformedEntity err), s2)
                     else if name = errDuplicate
                       then (Some (Wrap ErrConflict err), s2)
                     else (Some (Wrap ErrCreateEntity err), s2)
                 | _ \<Rightarrow> (Some (Wrap ErrCreateEntity err), s2)))
           | (Inr res, s1) \<Rightarrow> Save_loop js db tx rest s1))"

text \<open>Lines 39 to 75. The result is the pair Go returns: the slice and the error.\<close>

definition Save ::
  "encoding_json \<Rightarrow> ('s, 't) Database \<Rightarrow> Thing slice \<Rightarrow> 's \<Rightarrow>
     (Thing slice \<times> error option) \<times> 's" where
  "Save js db ths s =
     (case BeginTxx db s of
        (Inl err, s0) \<Rightarrow> ((Slice [], Some (Wrap ErrCreateEntity err)), s0)
      | (Inr tx, s0) \<Rightarrow>
          (case Save_loop js db tx (elems ths) s0 of
             (Some e, s1) \<Rightarrow> ((Slice [], Some e), s1)
           | (None, s1) \<Rightarrow>
               (case TxCommit db tx s1 of
                  (Some err, s2) \<Rightarrow> ((Slice [], Some (Wrap ErrCreateEntity err)), s2)
                | (None, s2) \<Rightarrow> ((ths, None), s2))))"

text \<open>
  The inserts of a batch run one after the other in a transaction: the store after the
  last one when every one went through, \<open>None\<close> as soon as the store refuses one.
\<close>

fun insert_all :: "('s, 't) Database \<Rightarrow> 't \<Rightarrow> dbThing list \<Rightarrow> 's \<Rightarrow> 's option" where
  "insert_all db tx [] s = Some s"
| "insert_all db tx (d # ds) s =
     (case TxNamedExecContext db tx InsertThing d s of
        (Inl e, s1) \<Rightarrow> None
      | (Inr res, s1) \<Rightarrow> insert_all db tx ds s1)"

text \<open>
  The kind the specification gives to a failed insert of \<open>Save\<close> (section 4.4):
  \<open>MalformedEntity\<close> on invalid or oversized field values, \<open>Conflict\<close> on a duplicate ID or
  Key, \<open>CreateEntity\<close> otherwise, the store naming the three cases by the constants of
  lines 19 to 22.
\<close>

definition Save_insert_kind :: "error \<Rightarrow> err_kind" where
  "Save_insert_kind c =
     (if c = PqError errInvalid \<or> c = PqError errTruncation then ErrMalformedEntity
      else if c = PqError errDuplicate then ErrConflict
      else ErrCreateEntity)"

text \<open>
  Lines 77 to 108. \<open>err\<close> is the variable of line 80, nil once \<^verbatim>\<open>toDBThing\<close> has
  succeeded; line 99 tests it, not the \<open>errdb\<close> that line 98 assigns.
\<close>

definition Update ::
  "encoding_json \<Rightarrow> ('s, 't) Database \<Rightarrow> Thing \<Rightarrow> 's \<Rightarrow> error option \<times> 's" where
  "Update js db t s =
     (case toDBThing js t of
        Inl err \<Rightarrow> (Some (Wrap ErrUpdateEntity err), s)
      | Inr dbth \<Rightarrow>
          (let err = (None :: error option) in
           case NamedExecContext db UpdateThing dbth s of
             (Inl errdb, s1) \<Rightarrow>
               (case errdb of
                  PqError name \<Rightarrow>
                    if name = errInvalid \<or> name = errTruncation
                      then (Some (Wrap ErrMalformedEntity errdb), s1)
                    else (Some (Wrap ErrUpdateEntity errdb), s1)
                | _ \<Rightarrow> (Some (Wrap ErrUpdateEntity errdb), s1))
           | (Inr res, s1) \<Rightarrow>
               (let (cnt, errdb) = RowsAffected res in
                if err \<noteq> None then (Some (errors_Wrap ErrUpdateEntity errdb), s1)
                else if cnt = 0 then (Some (Sentinel ErrNotFound), s1)
                else (None, s1))))"

text \<open>Lines 110 to 144.\<close>

definition UpdateKey ::
  "('s, 't) Database \<Rightarrow> string \<Rightarrow> string \<Rightarrow> string \<Rightarrow> 's \<Rightarrow> error option \<times> 's" where
  "UpdateKey db owner id' key s =
     (let dbth = \<lparr>dbID = id', dbOwner = owner, dbName = '''', dbKey = key, dbMetadata = ''''\<rparr> in
      case NamedExecContext db UpdateThingKey dbth s of
        (Inl err, s1) \<Rightarrow>
          (case err of
             PqError name \<Rightarrow>
               if name = errInvalid then (Some (Wrap ErrMalformedEntity err), s1)
               else if name = errDuplicate then (Some (Wrap ErrConflict err), s1)
               else (Some (Wrap ErrUpdateEntity err), s1)
           | _ \<Rightarrow> (Some (Wrap ErrUpdateEntity err), s1))
      | (Inr res, s1) \<Rightarrow>
          (case RowsAffected res of
             (cnt, Some err) \<Rightarrow> (Some (Wrap ErrUpdateEntity err), s1)
           | (cnt, None) \<Rightarrow>
               if cnt = 0 then (Some (Sentinel ErrNotFound), s1) else (None, s1)))"

text \<open>
  Lines 146 to 163. On failure Go returns the zero \<^verbatim>\<open>things.Thing{}\<close> beside the error;
  the sum keeps the error alone.
\<close>

definition RetrieveByID ::
  "encoding_json \<Rightarrow> ('s, 't) Database \<Rightarrow> string \<Rightarrow> string \<Rightarrow> 's \<Rightarrow> (error + Thing) \<times> 's" where
  "RetrieveByID js db owner id' s =
     (let dbth = \<lparr>dbID = id', dbOwner = owner, dbName = '''', dbKey = '''', dbMetadata = ''''\<rparr> in
      case QueryRowxContext db SelectThingByID id' owner s of
        (Inl err, s1) \<Rightarrow>
          (if err = SqlErrNoRows \<or> err = PqError errInvalid
             then (Inl (Wrap ErrNotFound err), s1)
           else (Inl (Wrap ErrSelectEntity err), s1))
      | (Inr (name, key, metadata), s1) \<Rightarrow>
          (toThing js (dbth\<lparr>dbName := name, dbKey := key, dbMetadata := metadata\<rparr>), s1))"

text \<open>Lines 324 to 334.\<close>

definition Remove ::
  "('s, 't) Database \<Rightarrow> string \<Rightarrow> string \<Rightarrow> 's \<Rightarrow> error option \<times> 's" where
  "Remove db owner id' s =
     (let dbth = \<lparr>dbID = id', dbOwner = owner, dbName = '''', dbKey = '''', dbMetadata = ''''\<rparr> in
      case NamedExecContext db DeleteThing dbth s of
        (Inl err, s1) \<Rightarrow> (Some (Wrap ErrRemoveEntity err), s1)
      | (Inr res, s1) \<Rightarrow> (None, s1))"

text \<open>
  \<^verbatim>\<open>things.Page\<close> with its embedded \<^verbatim>\<open>PageMetadata\<close>, as lines 225 to 232 fill it.
\<close>

record Page =
  Things :: "Thing slice"
  Total :: "64 word"
  Offset :: "64 word"
  Limit :: "64 word"

text \<open>
  The helpers of the package that \<^verbatim>\<open>RetrieveAll\<close> calls and whose code is not in the
  file: \<^verbatim>\<open>getNameQuery\<close> (the fragment and the bound value), \<^verbatim>\<open>getMetadataQuery\<close> (the
  bound value and the fragment, or an error) and \<^verbatim>\<open>total\<close> (the count query). They are
  parameters of the model.
\<close>

record ('s, 't) helpers =
  getNameQuery :: "string \<Rightarrow> string \<times> string"
  getMetadataQuery :: "Metadata \<Rightarrow> error + (string \<times> string)"
  total :: "('s, 't) Database \<Rightarrow> rows_query \<Rightarrow> Params \<Rightarrow> 's \<Rightarrow> (error + 64 word) \<times> 's"

text \<open>
  The loop of lines 203 to 216 over the rows of the page, \<open>items\<close> being the slice built
  so far.
\<close>

fun RetrieveAll_loop ::
  "encoding_json \<Rightarrow> string \<Rightarrow> (error + page_cols) list \<Rightarrow> Thing slice \<Rightarrow> error + Thing slice" where
  "RetrieveAll_loop js owner [] items = Inr items"
| "RetrieveAll_loop js owner (row # rows) items =
     (let dbth = \<lparr>dbID = '''', dbOwner = owner, dbName = '''', dbKey = '''', dbMetadata = ''''\<rparr> in
      case row of
        Inl err \<Rightarrow> Inl (Wrap ErrSelectEntity err)
      | Inr (id', name, key, metadata) \<Rightarrow>
          (case toThing js (dbth\<lparr>dbID := id', dbName := name, dbKey := key,
                                 dbMetadata := metadata\<rparr>) of
             Inl err \<Rightarrow> Inl (Wrap ErrViewEntity err)
           | Inr th \<Rightarrow> RetrieveAll_loop js owner rows (append_slice items th)))"

text \<open>Lines 179 to 235.\<close>

definition RetrieveAll ::
  "encoding_json \<Rightarrow> ('s, 't) helpers \<Rightarrow> ('s, 't) Database \<Rightarrow> string \<Rightarrow> 64 word \<Rightarrow> 64 word \<Rightarrow>
     string \<Rightarrow> Metadata \<Rightarrow> 's \<Rightarrow> (error + Page) \<times> 's" where
  "RetrieveAll js hp db owner offset limit name tm s =
     (let (nq, name) = getNameQuery hp name in
      case getMetadataQuery hp tm of
        Inl err \<Rightarrow> (Inl (Wrap ErrSelectEntity err), s)
      | Inr (m, mq) \<Rightarrow>
          (let params = \<lparr>p_owner = owner, p_limit = limit, p_offset = offset, p_name = name,
                         p_metadata = m\<rparr> in
           case NamedQueryContext db (SelectThings mq nq) params s of
             (Inl err, s1) \<Rightarrow> (Inl (Wrap ErrSelectEntity err), s1)
           | (Inr rows, s1) \<Rightarrow>
               (case RetrieveAll_loop js owner rows NilSlice of
                  Inl e \<Rightarrow> (Inl e, s1)
                | Inr items \<Rightarrow>
                    (case total hp db (CountThings nq mq) params s1 of
                       (Inl err, s2) \<Rightarrow> (Inl (Wrap ErrSelectEntity err), s2)
                     | (Inr n, s2) \<Rightarrow>
                         (Inr \<lparr>Things = items, Total = n, Offset = offset, Limit = limit\<rparr>,
                          s2)))))"

text \<open>
  A row of the page that the loop of \<^verbatim>\<open>RetrieveAll\<close> gets past: its scan succeeded and its
  metadata decodes.
\<close>

definition row_decodes :: "encoding_json \<Rightarrow> error + page_cols \<Rightarrow> bool" where
  "row_decodes js row =
     (case row of
        Inl e \<Rightarrow> False
      | Inr (i, n, k, md) \<Rightarrow> (case Unmarshal js md of Inl e \<Rightarrow> False | Inr m \<Rightarrow> True))"

section \<open>An in-memory store\<close>

text \<open>
  Modelled from the spec: the relational store is outside the repository. Sections 3, 5
  and 6 of the specification describe it: a table \<^verbatim>\<open>things\<close> whose \<^verbatim>\<open>id\<close> is a UUID and
  unique, whose \<^verbatim>\<open>key\<close> is unique when non-empty, whose values can be oversized for their
  column; transactions whose inserts become visible at commit and vanish at rollback; a
  delete that matches no row is not an error.

  \<^item> \<open>things_table\<close>: the committed rows, all that a reader sees;
  \<^item> \<open>open_txs\<close>: the transactions begun and not yet finished, each with the table as it
    sees it (the committed rows of its start and its own changes);
  \<^item> \<open>next_tx\<close>: the next transaction handle;
  \<^item> \<open>faults\<close>: what goes wrong in the store by itself (a lost connection, a cancelled
    context): the next call takes the head, and fails with it when it is \<open>Some e\<close>;
  \<^item> \<open>count_err\<close>: \<open>Some e\<close> for a driver that cannot report the affected rows;
  \<^item> \<open>max_name\<close>, \<open>max_key\<close>: the widths of the two columns.
\<close>

record mem_store =
  things_table :: "dbThing list"
  open_txs :: "(nat \<times> dbThing list) list"
  next_tx :: nat
  faults :: "error option list"
  count_err :: "error option"
  max_name :: nat
  max_key :: nat

definition take_fault :: "mem_store \<Rightarrow> error option \<times> mem_store" where
  "take_fault s = (case faults s of [] \<Rightarrow> (None, s) | f # fs \<Rightarrow> (f, s\<lparr>faults := fs\<rparr>))"

text \<open>A well-formed identifier: 8-4-4-4-12 hexadecimal digits.\<close>

definition is_hex :: "char \<Rightarrow> bool" where
  "is_hex c = (c \<in> set ''0123456789abcdefABCDEF'')"

fun uuid_shape :: "nat \<Rightarrow> string \<Rightarrow> bool" where
  "uuid_shape i [] = (i = 36)"
| "uuid_shape i (c # cs) =
     ((if i = 8 \<or> i = 13 \<or> i = 18 \<or> i = 23 then c = CHR ''-'' else is_hex c)
      \<and> uuid_shape (Suc i) cs)"

definition valid_uuid :: "string \<Rightarrow> bool" where
  "valid_uuid u = uuid_shape 0 u"

text \<open>The row a statement addresses: \<^verbatim>\<open>WHERE owner = :owner AND id = :id\<close>.\<close>

definition addressed :: "dbThing \<Rightarrow> dbThing \<Rightarrow> bool" where
  "addressed p r = (dbID r = dbID p \<and> dbOwner r = dbOwner p)"

definition key_taken :: "dbThing \<Rightarrow> dbThing list \<Rightarrow> bool" where
  "key_taken p tbl = (dbKey p \<noteq> [] \<and> list_ex (\<lambda>r. dbKey r = dbKey p \<and> \<not> addressed p r) tbl)"

text \<open>
  One statement on a table: the new table and the number of rows affected, or the error
  of the store. \<open>mn\<close> and \<open>mk\<close> are the column widths.
\<close>

fun run_statement ::
  "nat \<Rightarrow> nat \<Rightarrow> statement \<Rightarrow> dbThing \<Rightarrow> dbThing list \<Rightarrow> error + (dbThing list \<times> nat)" where
  "run_statement mn mk InsertThing p tbl =
     (if \<not> valid_uuid (dbID p) then Inl (PqError ''invalid_text_representation'')
      else if length (dbName p) > mn \<or> length (dbKey p) > mk
        then Inl (PqError ''string_data_right_truncation'')
      else if list_ex (\<lambda>r. dbID r = dbID p) tbl \<or> key_taken p tbl
        then Inl (PqError ''unique_violation'')
      else Inr (tbl @ [p], 1))"
| "run_statement mn mk UpdateThing p tbl =
     (if \<not> valid_uuid (dbID p) then Inl (PqError ''invalid_text_representation'')
      else if length (dbName p) > mn then Inl (PqError ''string_data_right_truncation'')
      else Inr (map (\<lambda>r. if addressed p r
                          then r\<lparr>dbName := dbName p, dbMetadata := dbMetadata p\<rparr> else r) tbl,
                length (filter (addressed p) tbl)))"
| "run_statement mn mk UpdateThingKey p tbl =
     (if \<not> valid_uuid (dbID p) then Inl (PqError ''invalid_text_representation'')
      else if length (dbKey p) > mk then Inl (PqError ''string_data_right_truncation'')
      else if list_ex (addressed p) tbl \<and> key_taken p tbl
        then Inl (PqError ''unique_violation'')
      else Inr (map (\<lambda>r. if addressed p r then r\<lparr>dbKey := dbKey p\<rparr> else r) tbl,
                length (filter (addressed p) tbl)))"
| "run_statement mn mk DeleteThing p tbl =
     (if \<not> valid_uuid (dbID p) then Inl (PqError ''invalid_text_representation'')
      else Inr (filter (\<lambda>r. \<not> addressed p r) tbl, length (filter (addressed p) tbl)))"

definition mem_result :: "mem_store \<Rightarrow> nat \<Rightarrow> sql_Result" where
  "mem_result s n =
     (case count_err s of
        None \<Rightarrow> \<lparr>affected = of_nat n, affected_err = None\<rparr>
      | Some e \<Rightarrow> \<lparr>affected = 0, affected_err = Some e\<rparr>)"

definition mem_BeginTxx :: "mem_store \<Rightarrow> (error + nat) \<times> mem_store" where
  "mem_BeginTxx s =
     (case take_fault s of
        (Some e, s1) \<Rightarrow> (Inl e, s1)
      | (None, s1) \<Rightarrow>
          (Inr (next_tx s1),
           s1\<lparr>open_txs := (next_tx s1, things_table s1) # open_txs s1,
               next_tx := Suc (next_tx s1)\<rparr>))"

definition close_tx :: "nat \<Rightarrow> mem_store \<Rightarrow> mem_store" where
  "close_tx tx s = s\<lparr>open_txs := filter (\<lambda>(i, w). i \<noteq> tx) (open_txs s)\<rparr>"

definition tx_done :: error where
  "tx_done = OtherError ''sql: transaction has already been committed or rolled back''"

definition mem_TxNamedExecContext ::
  "nat \<Rightarrow> statement \<Rightarrow> dbThing \<Rightarrow> mem_store \<Rightarrow> (error + sql_Result) \<times> mem_store" where
  "mem_TxNamedExecContext tx q p s =
     (case take_fault s of
        (Some e, s1) \<Rightarrow> (Inl e, s1)
      | (None, s1) \<Rightarrow>
          (case map_of (open_txs s1) tx of
             None \<Rightarrow> (Inl tx_done, s1)
           | Some w \<Rightarrow>
               (case run_statement (max_name s1) (max_key s1) q p w of
                  Inl e \<Rightarrow> (Inl e, s1)
                | Inr (w', n) \<Rightarrow>
                    (Inr (mem_result s1 n),
                     s1\<lparr>open_txs := (tx, w') # filter (\<lambda>(i, w). i \<noteq> tx) (open_txs s1)\<rparr>))))"

definition mem_TxRollback :: "nat \<Rightarrow> mem_store \<Rightarrow> error option \<times> mem_store" where
  "mem_TxRollback tx s =
     (case take_fault s of
        (Some e, s1) \<Rightarrow> (Some e, close_tx tx s1)
      | (None, s1) \<Rightarrow>
          (case map_of (open_txs s1) tx of
             None \<Rightarrow> (Some tx_done, s1)
           | Some w \<Rightarrow> (None, close_tx tx s1)))"

definition mem_TxCommit :: "nat \<Rightarrow> mem_store \<Rightarrow> error option \<times> mem_store" where
  "mem_TxCommit tx s =
     (case take_fault s of
        (Some e, s1) \<Rightarrow> (Some e, close_tx tx s1)
      | (None, s1) \<Rightarrow>
          (case map_of (open_txs s1) tx of
             None \<Rightarrow> (Some tx_done, s1)
           | Some w \<Rightarrow> (None, close_tx tx (s1\<lparr>things_table := w\<rparr>))))"

definition mem_NamedExecContext ::
  "statement \<Rightarrow> dbThing \<Rightarrow> mem_store \<Rightarrow> (error + sql_Result) \<times> mem_store" where
  "mem_NamedExecContext q p s =
     (case take_fault s of
        (Some e, s1) \<Rightarrow> (Inl e, s1)
      | (None, s1) \<Rightarrow>
          (case run_statement (max_name s1) (max_key s1) q p (things_table s1) of
             Inl e \<Rightarrow> (Inl e, s1)
           | Inr (tbl, n) \<Rightarrow> (Inr (mem_result s1 n), s1\<lparr>things_table := tbl\<rparr>)))"

definition mem_QueryRowxContext ::
  "row_query \<Rightarrow> string \<Rightarrow> string \<Rightarrow> mem_store \<Rightarrow> (error + thing_cols) \<times> mem_store" where
  "mem_QueryRowxContext q id' owner s =
     (case take_fault s of
        (Some e, s1) \<Rightarrow> (Inl e, s1)
      | (None, s1) \<Rightarrow>
          (if \<not> valid_uuid id' then (Inl (PqError ''invalid_text_representation''), s1)
           else
             (case filter (\<lambda>r. dbID r = id' \<and> dbOwner r = owner) (things_table s1) of
                [] \<Rightarrow> (Inl SqlErrNoRows, s1)
              | r # rs \<Rightarrow> (Inr (dbName r, dbKey r, dbMetadata r), s1))))"

text \<open>
  The listing queries carry fragments of SQL that the helpers write; how the store reads
  them is the parameter \<open>listing\<close>, from the query, its parameters and the committed rows
  to the rows returned.
\<close>

definition mem_NamedQueryContext ::
  "(rows_query \<Rightarrow> Params \<Rightarrow> dbThing list \<Rightarrow> error + (error + page_cols) list) \<Rightarrow>
     rows_query \<Rightarrow> Params \<Rightarrow> mem_store \<Rightarrow> (error + (error + page_cols) list) \<times> mem_store" where
  "mem_NamedQueryContext listing q ps s =
     (case take_fault s of
        (Some e, s1) \<Rightarrow> (Inl e, s1)
      | (None, s1) \<Rightarrow> (listing q ps (things_table s1), s1))"

definition memdb ::
  "(rows_query \<Rightarrow> Params \<Rightarrow> dbThing list \<Rightarrow> error + (error + page_cols) list) \<Rightarrow>
     (mem_store, nat) Database" where
  "memdb listing =
     \<lparr>BeginTxx = mem_BeginTxx,
      TxNamedExecContext = mem_TxNamedExecContext,
      TxRollback = mem_TxRollback,
      TxCommit = mem_TxCommit,
      NamedExecContext = mem_NamedExecContext,
      QueryRowxContext = mem_QueryRowxContext,
      NamedQueryContext = mem_NamedQueryContext listing\<rparr>"

section \<open>A codec for compact JSON\<close>

text \<open>
  An instance of \<open>encoding_json\<close> to run the model on. It writes JSON without white space,
  a Go integer and a \<^verbatim>\<open>float64\<close> of integral value as the digits of the value, a string
  with the two escapes it needs, an object with its entries in the order of the list. It
  reads JSON with or without white space, and, as \<^verbatim>\<open>json.Unmarshal\<close> into an
  \<^verbatim>\<open>interface{}\<close> does, every number as a \<^verbatim>\<open>float64\<close>. It does not read fractions,
  exponents or the escapes it does not write.
\<close>

definition dquote :: char where
  "dquote = CHR 0x22"

definition backslash :: char where
  "backslash = CHR 0x5C"

fun show_nat :: "nat \<Rightarrow> string" where
  "show_nat n =
     (if n < 10 then [''0123456789'' ! n]
      else show_nat (n div 10) @ [''0123456789'' ! (n mod 10)])"

declare show_nat.simps [simp del]

definition show_int :: "int \<Rightarrow> string" where
  "show_int i = (if i < 0 then CHR ''-'' # show_nat (nat (- i)) else show_nat (nat i))"

fun escape :: "string \<Rightarrow> string" where
  "escape [] = []"
| "escape (c # cs) =
     (if c = dquote \<or> c = backslash then backslash # c # escape cs else c # escape cs)"

definition quote :: "string \<Rightarrow> string" where
  "quote s = dquote # escape s @ [dquote]"

fun join_comma :: "string list \<Rightarrow> string" where
  "join_comma [] = []"
| "join_comma [x] = x"
| "join_comma (x # y # ys) = x @ '','' @ join_comma (y # ys)"

fun encode_value :: "jvalue \<Rightarrow> string option"
  and encode_elements :: "jvalue list \<Rightarrow> string list option"
  and encode_members :: "(string \<times> jvalue) list \<Rightarrow> string list option" where
  "encode_value JNull = Some ''null''"
| "encode_value (JBool b) = Some (if b then ''true'' else ''false'')"
| "encode_value (JInt i) = Some (show_int i)"
| "encode_value (JFloat i) = Some (show_int i)"
| "encode_value (JString s) = Some (quote s)"
| "encode_value (JArray vs) =
     (case encode_elements vs of
        None \<Rightarrow> None
      | Some es \<Rightarrow> Some (''['' @ join_comma es @ '']''))"
| "encode_value (JObject kvs) =
     (case encode_members kvs of
        None \<Rightarrow> None
      | Some es \<Rightarrow> Some (''{'' @ join_comma es @ ''}''))"
| "encode_value JChan = None"
| "encode_elements [] = Some []"
| "encode_elements (v # vs) =
     (case encode_value v of
        None \<Rightarrow> None
      | Some e \<Rightarrow> (case encode_elements vs of None \<Rightarrow> None | Some es \<Rightarrow> Some (e # es)))"
| "encode_members [] = Some []"
| "encode_members ((k, v) # kvs) =
     (case encode_value v of
        None \<Rightarrow> None
      | Some e \<Rightarrow>
          (case encode_members kvs of
             None \<Rightarrow> None
           | Some es \<Rightarrow> Some ((quote k @ '':'' @ e) # es)))"

definition compact_Marshal :: "Metadata \<Rightarrow> error + string" where
  "compact_Marshal m =
     (case m of
        None \<Rightarrow> Inr ''null''
      | Some kvs \<Rightarrow>
          (case encode_value (JObject kvs) of
             None \<Rightarrow> Inl (OtherError ''json: unsupported type'')
           | Some b \<Rightarrow> Inr b))"

text \<open>The text of a string after its opening quote: the string and what follows it.\<close>

fun parse_string :: "string \<Rightarrow> (string \<times> string) option" where
  "parse_string [] = None"
| "parse_string [c] = (if c = dquote then Some ([], []) else None)"
| "parse_string (c # d # cs) =
     (if c = dquote then Some ([], d # cs)
      else if c = backslash then map_option (apfst ((#) d)) (parse_string cs)
      else map_option (apfst ((#) c)) (parse_string (d # cs)))"

definition is_digit :: "char \<Rightarrow> bool" where
  "is_digit c = (c \<in> set ''0123456789'')"

definition read_nat :: "string \<Rightarrow> nat" where
  "read_nat ds = foldl (\<lambda>n c. 10 * n + (of_char c - 48)) 0 ds"

definition starts :: "string \<Rightarrow> string \<Rightarrow> bool" where
  "starts w cs = (take (length w) cs = w)"

text \<open>JSON's white space: space, tab, line feed, carriage return.\<close>

definition is_ws :: "char \<Rightarrow> bool" where
  "is_ws c = (c = CHR 0x20 \<or> c = CHR 0x09 \<or> c = CHR 0x0A \<or> c = CHR 0x0D)"

definition skip_ws :: "string \<Rightarrow> string" where
  "skip_ws cs = dropWhile is_ws cs"

text \<open>
  The parser, with the nesting depth it may still descend as its first argument: a value,
  the elements of an array after its bracket, the members of an object after its brace.
  White space may stand before and after every value, key and sign of punctuation. A
  number is read as a \<^verbatim>\<open>float64\<close>, whatever wrote it.
\<close>

fun parse_value :: "nat \<Rightarrow> string \<Rightarrow> (jvalue \<times> string) option"
  and parse_elements :: "nat \<Rightarrow> string \<Rightarrow> (jvalue list \<times> string) option"
  and parse_members :: "nat \<Rightarrow> string \<Rightarrow> ((string \<times> jvalue) list \<times> string) option" where
  "parse_value 0 cs0 = None"
| "parse_value (Suc n) cs0 =
     (let cs = skip_ws cs0 in
      if starts ''null'' cs then Some (JNull, drop 4 cs)
      else if starts ''true'' cs then Some (JBool True, drop 4 cs)
      else if starts ''false'' cs then Some (JBool False, drop 5 cs)
      else if starts [dquote] cs then map_option (apfst JString) (parse_string (tl cs))
      else if starts ''['' cs then
        (let r = skip_ws (tl cs) in
         if starts '']'' r then Some (JArray [], tl r)
         else map_option (apfst JArray) (parse_elements n r))
      else if starts ''{'' cs then
        (let r = skip_ws (tl cs) in
         if starts ''}'' r then Some (JObject [], tl r)
         else map_option (apfst JObject) (parse_members n r))
      else if starts ''-'' cs \<and> takeWhile is_digit (tl cs) \<noteq> []
        then Some (JFloat (- int (read_nat (takeWhile is_digit (tl cs)))),
                   dropWhile is_digit (tl cs))
      else if takeWhile is_digit cs \<noteq> []
        then Some (JFloat (int (read_nat (takeWhile is_digit cs))), dropWhile is_digit cs)
      else None)"
| "parse_elements 0 cs = None"
| "parse_elements (Suc n) cs =
     (case parse_value n cs of
        None \<Rightarrow> None
      | Some (v, r0) \<Rightarrow>
          (let r = skip_ws r0 in
           if starts '','' r then map_option (apfst ((#) v)) (parse_elements n (tl r))
           else if starts '']'' r then Some ([v], tl r)
           else None))"
| "parse_members 0 cs0 = None"
| "parse_members (Suc n) cs0 =
     (let cs = skip_ws cs0 in
      if \<not> starts [dquote] cs then None
      else
        (case parse_string (tl cs) of
           None \<Rightarrow> None
         | Some (k, r0) \<Rightarrow>
             (let r = skip_ws r0 in
              if \<not> starts '':'' r then None
              else
                (case parse_value n (tl r) of
                   None \<Rightarrow> None
                 | Some (v, r1) \<Rightarrow>
                     (let r' = skip_ws r1 in
                      if starts '','' r'
                        then map_option (apfst ((#) (k, v))) (parse_members n (tl r'))
                      else if starts ''}'' r' then Some ([(k, v)], tl r')
                      else None)))))"

text \<open>
  \<^verbatim>\<open>json.Unmarshal\<close> into a nil \<^verbatim>\<open>map[string]interface{}\<close>: an object fills a new map,
  \<^verbatim>\<open>null\<close> leaves the map nil, anything else is an error.
\<close>

definition compact_Unmarshal :: "string \<Rightarrow> error + Metadata" where
  "compact_Unmarshal b =
     (case parse_value (Suc (length b)) b of
        None \<Rightarrow> Inl (OtherError ''json: invalid input'')
      | Some (v, r) \<Rightarrow>
          if skip_ws r \<noteq> [] then Inl (OtherError ''json: invalid input'')
          else
            (case v of
               JObject kvs \<Rightarrow> Inr (Some kvs)
             | JNull \<Rightarrow> Inr None
             | _ \<Rightarrow> Inl (OtherError ''json: cannot unmarshal into map'')))"

definition compact_json :: encoding_json where
  "compact_json = \<lparr>Marshal = compact_Marshal, Unmarshal = compact_Unmarshal\<rparr>"

text \<open>
  Where a number can end: at the end of the text or before a character that is no digit.
  The characters a written value can begin with.
\<close>

definition no_digit_next :: "string \<Rightarrow> bool" where
  "no_digit_next r = (case r of [] \<Rightarrow> True | c # cs \<Rightarrow> \<not> is_digit c)"

definition value_start :: "char \<Rightarrow> bool" where
  "value_start c = (c \<in> set ''ntf[{-0123456789'' \<or> c = dquote)"

text \<open>
  What \<^verbatim>\<open>json.Unmarshal\<close> stores in an \<^verbatim>\<open>interface{}\<close> for the JSON of a value: a
  \<^verbatim>\<open>float64\<close> for every number, so for a Go integer too, and the value as it was for
  \<^verbatim>\<open>nil\<close>, booleans, strings, and, element by element, slices and maps.
\<close>

fun decoded :: "jvalue \<Rightarrow> jvalue"
  and decoded_elements :: "jvalue list \<Rightarrow> jvalue list"
  and decoded_members :: "(string \<times> jvalue) list \<Rightarrow> (string \<times> jvalue) list" where
  "decoded JNull = JNull"
| "decoded (JBool b) = JBool b"
| "decoded (JInt i) = JFloat i"
| "decoded (JFloat i) = JFloat i"
| "decoded (JString s) = JString s"
| "decoded (JArray vs) = JArray (decoded_elements vs)"
| "decoded (JObject kvs) = JObject (decoded_members kvs)"
| "decoded JChan = JChan"
| "decoded_elements [] = []"
| "decoded_elements (v # vs) = decoded v # decoded_elements vs"
| "decoded_members [] = []"
| "decoded_members ((k, v) # kvs) = (k, decoded v) # decoded_members kvs"

definition decoded_md :: "Metadata \<Rightarrow> Metadata" where
  "decoded_md m = map_option decoded_members m"

text \<open>
  The metadata on which \<^verbatim>\<open>encoding/json\<close> is held to read back what it wrote, up to
  \<open>decoded\<close>: every number is an integer of at most 53 bits, which a \<^verbatim>\<open>float64\<close> holds
  exactly and \<^verbatim>\<open>json.Marshal\<close> writes without an exponent; every string and key is ASCII,
  so valid UTF-8, which \<^verbatim>\<open>json.Marshal\<close> does not replace; the entries of a map are listed
  by ascending key, the order in which \<^verbatim>\<open>json.Marshal\<close> writes them; and no value is one
  that \<^verbatim>\<open>json.Marshal\<close> rejects.
\<close>

definition ascii :: "string \<Rightarrow> bool" where
  "ascii s = list_all (\<lambda>c. (of_char c :: nat) < 128) s"

fun key_less :: "string \<Rightarrow> string \<Rightarrow> bool" where
  "key_less [] [] = False"
| "key_less [] (y # ys) = True"
| "key_less (x # xs) [] = False"
| "key_less (x # xs) (y # ys) =
     ((of_char x :: nat) < of_char y \<or> (x = y \<and> key_less xs ys))"

fun ascending :: "string list \<Rightarrow> bool" where
  "ascending [] = True"
| "ascending [k] = True"
| "ascending (k # k' # ks) = (key_less k k' \<and> ascending (k' # ks))"

fun plain :: "jvalue \<Rightarrow> bool"
  and plain_elements :: "jvalue list \<Rightarrow> bool"
  and plain_members :: "(string \<times> jvalue) list \<Rightarrow> bool" where
  "plain JNull = True"
| "plain (JBool b) = True"
| "plain (JInt i) = (\<bar>i\<bar> \<le> 2 ^ 53)"
| "plain (JFloat i) = (\<bar>i\<bar> \<le> 2 ^ 53)"
| "plain (JString s) = ascii s"
| "plain (JArray vs) = plain_elements vs"
| "plain (JObject kvs) = (ascending (map fst kvs) \<and> plain_members kvs)"
| "plain JChan = False"
| "plain_elements [] = True"
| "plain_elements (v # vs) = (plain v \<and> plain_elements vs)"
| "plain_members [] = True"
| "plain_members ((k, v) # kvs) = (ascii k \<and> plain v \<and> plain_members kvs)"

definition plain_md :: "Metadata \<Rightarrow> bool" where
  "plain_md m = (case m of None \<Rightarrow> True | Some kvs \<Rightarrow> plain (JObject kvs))"

section \<open>A store that records what it is handed\<close>

text \<open>
  \<open>logged db\<close> is the store \<open>db\<close> with a log beside its state: every statement and row
  given to \<^verbatim>\<open>NamedExecContext\<close>, of the store or of a transaction, is appended to the
  log before \<open>db\<close> runs it.
\<close>

definition logged ::
  "('s, 't) Database \<Rightarrow> ('s \<times> (statement \<times> dbThing) list, 't) Database" where
  "logged db =
     \<lparr>BeginTxx = (\<lambda>(s, lg). case BeginTxx db s of (r, s') \<Rightarrow> (r, (s', lg))),
      TxNamedExecContext =
        (\<lambda>tx q p (s, lg).
           case TxNamedExecContext db tx q p s of (r, s') \<Rightarrow> (r, (s', lg @ [(q, p)]))),
      TxRollback = (\<lambda>tx (s, lg). case TxRollback db tx s of (r, s') \<Rightarrow> (r, (s', lg))),
      TxCommit = (\<lambda>tx (s, lg). case TxCommit db tx s of (r, s') \<Rightarrow> (r, (s', lg))),
      NamedExecContext =
        (\<lambda>q p (s, lg).
           case NamedExecContext db q p s of (r, s') \<Rightarrow> (r, (s', lg @ [(q, p)]))),
      QueryRowxContext =
        (\<lambda>q i ow (s, lg). case QueryRowxContext db q i ow s of (r, s') \<Rightarrow> (r, (s', lg))),
      NamedQueryContext =
        (\<lambda>q ps (s, lg). case NamedQueryContext db q ps s of (r, s') \<Rightarrow> (r, (s', lg)))\<rparr>"

section \<open>Sample data\<close>

text \<open>
  A listing that reads no fragment: every row of the owner, in the order of the table.
\<close>

definition owner_listing ::
  "rows_query \<Rightarrow> Params \<Rightarrow> dbThing list \<Rightarrow> error + (error + page_cols) list" where
  "owner_listing q ps tbl =
     Inr (map (\<lambda>r. Inr (dbID r, dbName r, dbKey r, dbMetadata r))
            (filter (\<lambda>r. dbOwner r = p_owner ps) tbl))"

definition mdb :: "(mem_store, nat) Database" where
  "mdb = memdb owner_listing"

definition store0 :: mem_store where
  "store0 =
     \<lparr>things_table = [], open_txs = [], next_tx = 0, faults = [], count_err = None,
      max_name = 1024, max_key = 4096\<rparr>"

definition lamp :: Thing where
  "lamp =
     \<lparr>ID = ''0a1b2c3d-0000-4000-8000-00000000000a'', Owner = ''alice'', Name = ''lamp'',
      Key = ''key-a'', Metadata = Some [(''region'', JString ''eu'')]\<rparr>"

definition door :: Thing where
  "door =
     \<lparr>ID = ''0a1b2c3d-0000-4000-8000-00000000000b'', Owner = ''alice'', Name = ''door'',
      Key = ''key-b'', Metadata = None\<rparr>"

definition probe :: Thing where
  "probe =
     \<lparr>ID = ''0a1b2c3d-0000-4000-8000-00000000000c'', Owner = ''alice'', Name = ''probe'',
      Key = ''key-c'', Metadata = Some [(''wire'', JChan)]\<rparr>"

definition lamp_row :: dbThing where
  \<open>lamp_row =
     \<lparr>dbID = ''0a1b2c3d-0000-4000-8000-00000000000a'', dbOwner = ''alice'', dbName = ''lamp'',
      dbKey = ''key-a'', dbMetadata = ''{"region":"eu"}''\<rparr>\<close>

definition door_row :: dbThing where
  \<open>door_row =
     \<lparr>dbID = ''0a1b2c3d-0000-4000-8000-00000000000b'', dbOwner = ''alice'', dbName = ''door'',
      dbKey = ''key-b'', dbMetadata = ''{}''\<rparr>\<close>

definition gauge :: Thing where
  "gauge =
     \<lparr>ID = ''0a1b2c3d-0000-4000-8000-00000000000d'', Owner = ''alice'', Name = ''gauge'',
      Key = ''key-d'', Metadata = Some [(''level'', JInt 3)]\<rparr>"

definition gauge_row :: dbThing where
  \<open>gauge_row =
     \<lparr>dbID = ''0a1b2c3d-0000-4000-8000-00000000000d'', dbOwner = ''alice'', dbName = ''gauge'',
      dbKey = ''key-d'', dbMetadata = ''{"level":3}''\<rparr>\<close>

text \<open>
  Modelled from the spec: the package's helpers \<^verbatim>\<open>getNameQuery\<close>, \<^verbatim>\<open>getMetadataQuery\<close> and
  \<^verbatim>\<open>total\<close> are not in the file. Section 4.2 of the specification: an empty name or an
  empty mapping gives a neutral fragment, otherwise the fragment matches the name against
  a pattern derived from it, or asks that the stored metadata contain the encoded
  mapping, and an encoding failure is returned; section 5: the count query runs against
  the same predicates. Here the count is the number of rows the store returns for the
  count query.
\<close>

definition sample_helpers :: "encoding_json \<Rightarrow> (mem_store, nat) helpers" where
  \<open>sample_helpers js =
     \<lparr>getNameQuery =
        (\<lambda>name. if name = [] then ([], [])
                else ('' AND LOWER(name) LIKE :name'', ''%'' @ name @ ''%'')),
      getMetadataQuery =
        (\<lambda>m. if len_md m = 0 then Inr (''{}'', [])
             else (case Marshal js m of
                     Inl e \<Rightarrow> Inl e
                   | Inr b \<Rightarrow> Inr (b, '' AND metadata @> :metadata''))),
      total =
        (\<lambda>db q ps s.
           case NamedQueryContext db q ps s of
             (Inl e, s1) \<Rightarrow> (Inl e, s1)
           | (Inr rows, s1) \<Rightarrow> (Inr (of_nat (length rows)), s1))\<rparr>\<close>

text \<open>
  Sample stores: one row; a key column of width 8; a driver without row counts; a row
  whose stored metadata is cut short; a store about to lose its connection.
\<close>

definition lamp_store :: mem_store where
  "lamp_store = store0\<lparr>things_table := [lamp_row]\<rparr>"

definition narrow_store :: mem_store where
  "narrow_store = store0\<lparr>things_table := [lamp_row], max_key := 8\<rparr>"

definition countless_store :: mem_store where
  "countless_store =
     store0\<lparr>things_table := [lamp_row],
            count_err := Some (OtherError ''RowsAffected is not supported'')\<rparr>"

definition torn_store :: mem_store where
  \<open>torn_store = store0\<lparr>things_table := [lamp_row\<lparr>dbMetadata := ''{"region"''\<rparr>]\<rparr>\<close>

definition failing_store :: mem_store where
  "failing_store = store0\<lparr>faults := [Some (OtherError ''connection refused'')]\<rparr>"

section \<open>Evaluating the sample data\<close>

lemmas codec_defs = compact_json_def compact_Marshal_def compact_Unmarshal_def quote_def
  dquote_def backslash_def starts_def skip_ws_def is_ws_def Let_def

lemmas mem_defs = mdb_def memdb_def mem_BeginTxx_def mem_TxNamedExecContext_def
  mem_TxRollback_def mem_TxCommit_def mem_NamedExecContext_def mem_QueryRowxContext_def
  mem_NamedQueryContext_def take_fault_def close_tx_def mem_result_def valid_uuid_def
  is_hex_def addressed_def key_taken_def tx_done_def

lemma toDBThing_lamp: "toDBThing compact_json lamp = Inr lamp_row"
  by (simp add: toDBThing_def lamp_def lamp_row_def codec_defs)

lemma toDBThing_door: "toDBThing compact_json door = Inr door_row"
  by (simp add: toDBThing_def door_def door_row_def codec_defs)

lemma toDBThing_probe:
  "toDBThing compact_json probe =
     Inl (Wrap ErrMalformedEntity (OtherError ''json: unsupported type''))"
  by (simp add: toDBThing_def probe_def codec_defs)

lemma Unmarshal_empty_object: \<open>Unmarshal compact_json ''{}'' = Inr (Some [])\<close>
  by (simp add: codec_defs)

lemma Unmarshal_white_space:
  \<open>Unmarshal compact_json '' { "level" : 3 , "tags" : [ ] } '' =
     Inr (Some [(''level'', JFloat 3), (''tags'', JArray [])])\<close>
  by (simp add: codec_defs is_digit_def read_nat_def)

section \<open>The compact codec reads back what it writes\<close>

lemma digit_at: "k < 10 \<Longrightarrow> is_digit (''0123456789'' ! k) \<and> of_char (''0123456789'' ! k) - 48 = k"
proof -
  assume "k < 10"
  then consider "k = 0" | "k = 1" | "k = 2" | "k = 3" | "k = 4" | "k = 5" | "k = 6" | "k = 7"
    | "k = 8" | "k = 9"
    by atomize_elim arith
  then show ?thesis by cases (simp_all add: is_digit_def)
qed

lemma show_nat_digits: "list_all is_digit (show_nat n) \<and> show_nat n \<noteq> []"
proof (induction n rule: show_nat.induct)
  case (1 n)
  show ?case
  proof (cases "n < 10")
    case True
    then show ?thesis by (simp add: show_nat.simps [of n] digit_at)
  next
    case False
    with 1 show ?thesis by (simp add: show_nat.simps [of n] digit_at)
  qed
qed

lemma read_nat_snoc: "read_nat (ds @ [c]) = 10 * read_nat ds + (of_char c - 48)"
  by (simp add: read_nat_def)

lemma read_show_nat: "read_nat (show_nat n) = n"
proof (induction n rule: show_nat.induct)
  case (1 n)
  show ?case
  proof (cases "n < 10")
    case True
    then show ?thesis by (simp add: show_nat.simps [of n] read_nat_def digit_at)
  next
    case False
    with 1 have "read_nat (show_nat (n div 10)) = n div 10" by simp
    with False show ?thesis
      by (simp add: show_nat.simps [of n] read_nat_snoc digit_at)
  qed
qed

lemma takeWhile_digits:
  "list_all is_digit ds \<Longrightarrow> no_digit_next r \<Longrightarrow>
     takeWhile is_digit (ds @ r) = ds \<and> dropWhile is_digit (ds @ r) = r"
  by (induction ds) (auto simp: no_digit_next_def split: list.splits)

lemma parse_string_escape:
  "parse_string (escape s @ dquote # r) = Some (s, r)"
proof (induction s)
  case Nil
  then show ?case by (cases r) simp_all
next
  case (Cons c s)
  obtain d ds where ne: "escape s @ dquote # r = d # ds"
    by (cases "escape s @ dquote # r") auto
  show ?case
  proof (cases "c = dquote \<or> c = backslash")
    case True
    with Cons show ?thesis by (auto simp: dquote_def backslash_def)
  next
    case False
    with Cons ne show ?thesis by simp
  qed
qed

lemma show_nat_start: "\<exists>c cs. show_nat n = c # cs \<and> is_digit c"
  using show_nat_digits [of n] by (cases "show_nat n") auto

lemma digit_value_start: "is_digit c \<Longrightarrow> value_start c"
  by (simp add: is_digit_def value_start_def)

lemma show_int_start: "\<exists>c cs. show_int i = c # cs \<and> value_start c"
proof (cases "i < 0")
  case True
  then have "show_int i = CHR ''-'' # show_nat (nat (- i))" by (simp add: show_int_def)
  moreover have "value_start (CHR ''-'')" by (simp add: value_start_def)
  ultimately show ?thesis by blast
next
  case False
  then have s: "show_int i = show_nat (nat i)" by (simp add: show_int_def)
  from show_nat_start [of "nat i"] obtain c cs where "show_nat (nat i) = c # cs" "is_digit c"
    by blast
  with s digit_value_start show ?thesis by auto
qed

lemma encode_value_start:
  "encode_value v = Some e \<Longrightarrow> \<exists>c cs. e = c # cs \<and> value_start c"
proof (cases v)
  case (JInt i)
  assume "encode_value v = Some e"
  with JInt show_int_start [of i] show ?thesis by auto
next
  case (JFloat i)
  assume "encode_value v = Some e"
  with JFloat show_int_start [of i] show ?thesis by auto
qed (auto simp: value_start_def quote_def split: option.splits if_splits)

lemma skip_ws_Cons: "skip_ws (c # cs) = (if is_ws c then skip_ws cs else c # cs)"
  by (simp add: skip_ws_def)

lemma skip_ws_Nil: "skip_ws [] = []"
  by (simp add: skip_ws_def)

lemma value_start_no_ws: "value_start c \<Longrightarrow> \<not> is_ws c"
  by (auto simp: value_start_def is_ws_def dquote_def)

lemma is_digit_no_ws: "is_digit c \<Longrightarrow> \<not> is_ws c"
  by (auto simp: is_digit_def is_ws_def)

lemma punctuation_no_ws:
  "\<not> is_ws dquote" "\<not> is_ws (CHR '','')" "\<not> is_ws (CHR '']'')" "\<not> is_ws (CHR ''}'')"
  "\<not> is_ws (CHR '':'')" "\<not> is_ws (CHR ''n'')" "\<not> is_ws (CHR ''t'')" "\<not> is_ws (CHR ''f'')"
  "\<not> is_ws (CHR ''['')" "\<not> is_ws (CHR ''{'')" "\<not> is_ws (CHR ''-'')"
  by (simp_all add: is_ws_def dquote_def)

lemmas skip_simps = skip_ws_Cons skip_ws_Nil punctuation_no_ws Let_def

lemma pv_null: "parse_value (Suc m) (''null'' @ r) = Some (JNull, r)"
  by (simp add: starts_def skip_simps)

lemma pv_true: "parse_value (Suc m) (''true'' @ r) = Some (JBool True, r)"
  by (simp add: starts_def skip_simps)

lemma pv_false: "parse_value (Suc m) (''false'' @ r) = Some (JBool False, r)"
  by (simp add: starts_def skip_simps)

lemma pv_string: "parse_value (Suc m) (quote s @ r) = Some (JString s, r)"
  by (simp add: quote_def starts_def parse_string_escape skip_simps) (simp add: dquote_def)

lemma pv_array_empty: "parse_value (Suc m) (''[]'' @ r) = Some (JArray [], r)"
  by (simp add: starts_def dquote_def skip_simps)

lemma pv_object_empty: "parse_value (Suc m) (''{}'' @ r) = Some (JObject [], r)"
  by (simp add: starts_def dquote_def skip_simps)

lemma pv_array:
  "value_start c \<Longrightarrow>
     parse_value (Suc m) (CHR ''['' # c # cs) =
       map_option (apfst JArray) (parse_elements m (c # cs))"
  using value_start_no_ws [of c]
  by (auto simp: starts_def value_start_def dquote_def skip_simps)

lemma pv_object:
  "parse_value (Suc m) (CHR ''{'' # dquote # cs) =
     map_option (apfst JObject) (parse_members m (dquote # cs))"
  by (simp add: starts_def skip_simps) (simp add: dquote_def)

lemma pv_digits:
  assumes "list_all is_digit ds" "ds \<noteq> []" "no_digit_next r"
  shows "parse_value (Suc m) (ds @ r) = Some (JFloat (int (read_nat ds)), r)"
proof -
  from assms(1,2) obtain c cs where ds: "ds = c # cs" "is_digit c" by (cases ds) auto
  from takeWhile_digits [OF assms(1,3)]
  have t: "takeWhile is_digit (ds @ r) = ds" "dropWhile is_digit (ds @ r) = r" by simp_all
  from ds is_digit_no_ws [of c] have s: "skip_ws (ds @ r) = ds @ r"
    by (simp add: skip_ws_Cons)
  from ds have "\<not> starts ''null'' (ds @ r)" "\<not> starts ''true'' (ds @ r)"
    "\<not> starts ''false'' (ds @ r)" "\<not> starts [dquote] (ds @ r)"
    "\<not> starts ''['' (ds @ r)" "\<not> starts ''{'' (ds @ r)"
    "\<not> starts ''-'' (ds @ r)"
    by (auto simp: starts_def is_digit_def dquote_def)
  with t s assms(2) show ?thesis by (simp add: Let_def)
qed

lemma pv_minus:
  assumes "list_all is_digit ds" "ds \<noteq> []" "no_digit_next r"
  shows "parse_value (Suc m) (CHR ''-'' # ds @ r) = Some (JFloat (- int (read_nat ds)), r)"
proof -
  from takeWhile_digits [OF assms(1,3)]
  have t: "takeWhile is_digit (ds @ r) = ds" "dropWhile is_digit (ds @ r) = r" by simp_all
  have s: "skip_ws (CHR ''-'' # ds @ r) = CHR ''-'' # ds @ r"
    by (simp add: skip_simps)
  have "\<not> starts ''null'' (CHR ''-'' # ds @ r)" "\<not> starts ''true'' (CHR ''-'' # ds @ r)"
    "\<not> starts ''false'' (CHR ''-'' # ds @ r)" "\<not> starts [dquote] (CHR ''-'' # ds @ r)"
    "\<not> starts ''['' (CHR ''-'' # ds @ r)"
    "\<not> starts ''{'' (CHR ''-'' # ds @ r)" "starts ''-'' (CHR ''-'' # ds @ r)"
    by (auto simp: starts_def dquote_def)
  with t s assms(2) show ?thesis by (simp add: Let_def)
qed

lemma pv_number:
  assumes "no_digit_next r"
  shows "parse_value (Suc m) (show_int i @ r) = Some (JFloat i, r)"
proof -
  have d: "list_all is_digit (show_nat k)" "show_nat k \<noteq> []" for k
    using show_nat_digits [of k] by simp_all
  show ?thesis
  proof (cases "i < 0")
    case True
    have "parse_value (Suc m) (CHR ''-'' # show_nat (nat (- i)) @ r) =
            Some (JFloat (- int (read_nat (show_nat (nat (- i))))), r)"
      by (rule pv_minus [OF d assms])
    with True show ?thesis
      by (simp add: show_int_def read_show_nat del: parse_value.simps)
  next
    case False
    have "parse_value (Suc m) (show_nat (nat i) @ r) =
            Some (JFloat (int (read_nat (show_nat (nat i)))), r)"
      by (rule pv_digits [OF d assms])
    with False show ?thesis
      by (simp add: show_int_def read_show_nat del: parse_value.simps)
  qed
qed

lemma join_comma_Cons:
  "join_comma (x # xs) = (if xs = [] then x else x @ '','' @ join_comma xs)"
  by (cases xs) simp_all

lemma encode_elements_start:
  "encode_elements (v # vs) = Some es \<Longrightarrow> \<exists>c cs. join_comma es = c # cs \<and> value_start c"
proof -
  assume a: "encode_elements (v # vs) = Some es"
  then obtain e es' where e: "encode_value v = Some e" "es = e # es'"
    by (auto split: option.splits)
  from encode_value_start [OF e(1)] obtain c cs where "e = c # cs" "value_start c" by blast
  with e(2) show ?thesis by (cases es') auto
qed

lemma encode_members_start:
  "encode_members (kv # kvs) = Some es \<Longrightarrow> \<exists>cs. join_comma es = dquote # cs"
proof -
  assume a: "encode_members (kv # kvs) = Some es"
  obtain k v where kv: "kv = (k, v)" by (cases kv)
  with a obtain e es' where e: "encode_value v = Some e" "es = (quote k @ '':'' @ e) # es'"
    by (auto split: option.splits)
  then show ?thesis by (cases es') (auto simp: quote_def)
qed

lemma no_digit_next_simps:
  "no_digit_next []" "no_digit_next (CHR '','' # r)" "no_digit_next (CHR '']'' # r)"
  "no_digit_next (CHR ''}'' # r)"
  by (simp_all add: no_digit_next_def is_digit_def)

lemma round_trip_value:
    "encode_value v = Some e \<Longrightarrow> length e < n \<Longrightarrow> no_digit_next r \<Longrightarrow>
       parse_value n (e @ r) = Some (decoded v, r)"
  and round_trip_elements:
    "encode_elements vs = Some es \<Longrightarrow> vs \<noteq> [] \<Longrightarrow> length (join_comma es) + 1 < n \<Longrightarrow>
       parse_elements n (join_comma es @ CHR '']'' # r) = Some (decoded_elements vs, r)"
  and round_trip_members:
    "encode_members kvs = Some es \<Longrightarrow> kvs \<noteq> [] \<Longrightarrow> length (join_comma es) + 1 < n \<Longrightarrow>
       parse_members n (join_comma es @ CHR ''}'' # r) = Some (decoded_members kvs, r)"
proof (induction v and vs and kvs arbitrary: e n r and es n r and es n r
    rule: encode_value_encode_elements_encode_members.induct)
  case 1
  then obtain m where "n = Suc m" by (cases n) auto
  with 1 pv_null [of m r] show ?case by (simp del: parse_value.simps)
next
  case (2 b)
  then obtain m where "n = Suc m" by (cases n) auto
  with 2 pv_true [of m r] pv_false [of m r] show ?case
    by (cases b) (simp_all del: parse_value.simps)
next
  case (3 i)
  then obtain m where "n = Suc m" by (cases n) auto
  with 3 pv_number [of r m i] show ?case by (simp del: parse_value.simps)
next
  case (4 i)
  then obtain m where "n = Suc m" by (cases n) auto
  with 4 pv_number [of r m i] show ?case by (simp del: parse_value.simps)
next
  case (5 s)
  then obtain m where "n = Suc m" by (cases n) auto
  with 5 pv_string [of m s r] show ?case by (simp del: parse_value.simps)
next
  case (6 vs)
  from 6(2) obtain es where es: "encode_elements vs = Some es"
    "e = ''['' @ join_comma es @ '']''"
    by (auto split: option.splits)
  from 6(3) obtain m where n: "n = Suc m" by (cases n) auto
  show ?case
  proof (cases vs)
    case Nil
    with es have "e = ''[]''" by simp
    with Nil n pv_array_empty [of m r] show ?thesis by (simp del: parse_value.simps)
  next
    case (Cons v vs')
    with es(1) encode_elements_start [of v vs' es] obtain c cs where
      st: "join_comma es = c # cs" "value_start c"
      by blast
    from es(2) 6(3) n have "length (join_comma es) + 1 < m" by simp
    from "6.IH" [OF es(1) _ this, of r] Cons
    have "parse_elements m (join_comma es @ CHR '']'' # r) = Some (decoded_elements vs, r)"
      by simp
    with st pv_array [OF st(2), of m "cs @ CHR '']'' # r"] es(2) n show ?thesis
      by (simp del: parse_value.simps)
  qed
next
  case (7 kvs)
  from 7(2) obtain es where es: "encode_members kvs = Some es"
    "e = ''{'' @ join_comma es @ ''}''"
    by (auto split: option.splits)
  from 7(3) obtain m where n: "n = Suc m" by (cases n) auto
  show ?case
  proof (cases kvs)
    case Nil
    with es have "e = ''{}''" by simp
    with Nil n pv_object_empty [of m r] show ?thesis by (simp del: parse_value.simps)
  next
    case (Cons kv kvs')
    with es(1) encode_members_start [of kv kvs' es] obtain cs where
      st: "join_comma es = dquote # cs"
      by blast
    from es(2) 7(3) n have "length (join_comma es) + 1 < m" by simp
    from "7.IH" [OF es(1) _ this, of r] Cons
    have "parse_members m (join_comma es @ CHR ''}'' # r) = Some (decoded_members kvs, r)"
      by simp
    with st pv_object [of m "cs @ CHR ''}'' # r"] es(2) n show ?thesis
      by (simp del: parse_value.simps)
  qed
next
  case 8
  then show ?case by simp
next
  case 9
  then show ?case by simp
next
  case (10 v vs)
  from 10(3) obtain e es' where e: "encode_value v = Some e" "encode_elements vs = Some es'"
    "es = e # es'"
    by (auto split: option.splits)
  from 10(5) obtain m where n: "n = Suc m" by (cases n) auto
  show ?case
  proof (cases vs)
    case Nil
    with e have j: "join_comma es = e" by simp
    with 10(5) n have "length e < m" by simp
    from "10.IH"(1) [OF e(1) this no_digit_next_simps(3), of r]
    have "parse_value m (e @ CHR '']'' # r) = Some (decoded v, CHR '']'' # r)" .
    with j n Nil show ?thesis by (simp add: starts_def skip_simps)
  next
    case (Cons v' vs')
    with e(2) have ne: "es' \<noteq> []" by (auto split: option.splits)
    with e(3) have j: "join_comma es = e @ '','' @ join_comma es'"
      by (simp add: join_comma_Cons)
    with 10(5) n have l: "length e < m" "length (join_comma es') + 1 < m" by simp_all
    from "10.IH"(1) [OF e(1) l(1) no_digit_next_simps(2), of "join_comma es' @ CHR '']'' # r"]
    have p: "parse_value m (e @ CHR '','' # join_comma es' @ CHR '']'' # r) =
               Some (decoded v, CHR '','' # join_comma es' @ CHR '']'' # r)" .
    from "10.IH"(2) [OF e(1) e(2) _ l(2), of r] Cons
    have q: "parse_elements m (join_comma es' @ CHR '']'' # r) = Some (decoded_elements vs, r)"
      by simp
    from p q j n show ?thesis by (simp add: starts_def skip_simps)
  qed
next
  case 11
  then show ?case by simp
next
  case (12 k v kvs)
  from 12(3) obtain e es' where e: "encode_value v = Some e" "encode_members kvs = Some es'"
    "es = (quote k @ '':'' @ e) # es'"
    by (auto split: option.splits)
  from 12(5) obtain m where n: "n = Suc m" by (cases n) auto
  have key: "parse_string (escape k @ dquote # CHR '':'' # x) = Some (k, CHR '':'' # x)" for x
    by (rule parse_string_escape)
  show ?case
  proof (cases kvs)
    case Nil
    with e have j: "join_comma es = quote k @ '':'' @ e" by simp
    with 12(5) n have "length e < m" by simp
    from "12.IH"(1) [OF e(1) this no_digit_next_simps(4), of r]
    have "parse_value m (e @ CHR ''}'' # r) = Some (decoded v, CHR ''}'' # r)" .
    with j n Nil key [of "e @ CHR ''}'' # r"] show ?thesis
      by (simp add: starts_def quote_def skip_simps)
  next
    case (Cons kv' kvs')
    with e(2) have ne: "es' \<noteq> []" by (cases kv') (auto split: option.splits)
    with e(3) have j: "join_comma es = quote k @ '':'' @ e @ '','' @ join_comma es'"
      by (simp add: join_comma_Cons)
    with 12(5) n have l: "length e < m" "length (join_comma es') + 1 < m" by simp_all
    from "12.IH"(1) [OF e(1) l(1) no_digit_next_simps(2), of "join_comma es' @ CHR ''}'' # r"]
    have p: "parse_value m (e @ CHR '','' # join_comma es' @ CHR ''}'' # r) =
               Some (decoded v, CHR '','' # join_comma es' @ CHR ''}'' # r)" .
    from "12.IH"(2) [OF e(1) e(2) _ l(2), of r] Cons
    have q: "parse_members m (join_comma es' @ CHR ''}'' # r) = Some (decoded_members kvs, r)"
      by simp
    from p q j n key [of "e @ CHR '','' # join_comma es' @ CHR ''}'' # r"] show ?thesis
      by (simp add: starts_def quote_def skip_simps)
  qed
qed

lemma compact_json_round_trip:
  assumes "Marshal compact_json m = Inr b"
  shows "Unmarshal compact_json b = Inr (decoded_md m)"
proof (cases m)
  case None
  with assms have "b = ''null''" by (simp add: compact_json_def compact_Marshal_def)
  with None pv_null [of "length b" "[]"] show ?thesis
    by (simp add: compact_json_def compact_Unmarshal_def decoded_md_def skip_ws_Nil
        del: parse_value.simps)
next
  case (Some kvs)
  with assms have "encode_value (JObject kvs) = Some b"
    by (auto simp: compact_json_def compact_Marshal_def split: option.splits)
  from round_trip_value [OF this, of "Suc (length b)" "[]"]
  have "parse_value (Suc (length b)) b = Some (JObject (decoded_members kvs), [])"
    by (simp add: no_digit_next_def del: parse_value.simps)
  with Some show ?thesis
    by (simp add: compact_json_def compact_Unmarshal_def decoded_md_def skip_ws_Nil
        del: parse_value.simps)
qed

lemma decoded_twice:
  "decoded (decoded v) = decoded v"
  "decoded_elements (decoded_elements vs) = decoded_elements vs"
  "decoded_members (decoded_members kvs) = decoded_members kvs"
  by (induction v and vs and kvs rule: decoded_decoded_elements_decoded_members.induct)
    simp_all

section \<open>The codec\<close>

lemma toDBThing_fields:
  "toDBThing js t = Inr d \<Longrightarrow>
     dbID d = ID t \<and> dbOwner d = Owner t \<and> dbName d = Name t \<and> dbKey d = Key t"
  by (auto simp: toDBThing_def Let_def split: if_splits sum.splits)

lemma toDBThing_metadata:
  \<open>toDBThing js t = Inr d \<Longrightarrow>
     (if len_md (Metadata t) = 0 then dbMetadata d = ''{}''
      else Marshal js (Metadata t) = Inr (dbMetadata d))\<close>
  by (auto simp: toDBThing_def Let_def split: if_splits sum.splits)

text \<open>
  C10, as claimed, fails. The metadata \<^verbatim>\<open>{"level": 3}\<close>, with the Go integer 3, is
  JSON-serializable: \<open>toDBThing\<close> writes it as \<^verbatim>\<open>{"level":3}\<close>. \<open>toThing\<close> succeeds on the
  row and returns the ID, Owner, Name and Key of the Thing, but its metadata holds the
  \<^verbatim>\<open>float64\<close> 3 that \<^verbatim>\<open>json.Unmarshal\<close> stores for a number, which is not the integer 3
  of the Thing: the metadata that comes back is not the metadata that went in.
\<close>

theorem codec_round_trip_changes_integers:
  \<open>Marshal compact_json (Metadata gauge) = Inr ''{"level":3}'' \<and>
   toDBThing compact_json gauge = Inr gauge_row \<and>
   toThing compact_json gauge_row = Inr (gauge\<lparr>Metadata := Some [(''level'', JFloat 3)]\<rparr>) \<and>
   Metadata gauge = Some [(''level'', JInt 3)] \<and>
   toThing compact_json gauge_row \<noteq> Inr gauge\<close>
  by (simp add: toDBThing_def toThing_def gauge_def gauge_row_def codec_defs show_int_def
      show_nat.simps is_digit_def read_nat_def)

text \<open>
  C10, amended. For every JSON library and every Thing \<open>t\<close> whose metadata is empty or
  absent, or is encoded by \<^verbatim>\<open>json.Marshal\<close>: \<open>toDBThing\<close> succeeds on \<open>t\<close>, and \<open>toThing\<close> on
  its row returns what \<^verbatim>\<open>json.Unmarshal\<close> makes of the stored bytes, which are \<^verbatim>\<open>{}\<close> for
  an empty or absent mapping and the bytes of \<^verbatim>\<open>json.Marshal\<close> otherwise: the Thing with
  the ID, Owner, Name and Key of \<open>t\<close> and the decoded mapping as metadata. With a library
  that reads
  back the plain mappings it wrote as \<^verbatim>\<open>encoding/json\<close> does, a number as a \<^verbatim>\<open>float64\<close>,
  and \<^verbatim>\<open>{}\<close> as the empty, non-nil mapping, \<open>toThing\<close> succeeds on the row of a plain \<open>t\<close>;
  the metadata of the result is the empty, non-nil mapping when the metadata of \<open>t\<close> is
  empty or absent, and otherwise the metadata of \<open>t\<close> with every Go integer replaced by the
  \<^verbatim>\<open>float64\<close> of its value, which is a mapping that the round trip returns unchanged.
\<close>

theorem codec_round_trip:
  \<open>(\<forall>m. len_md (Metadata t) = 0 \<and> Unmarshal js ''{}'' = Inr m \<longrightarrow>
      (\<exists>d. toDBThing js t = Inr d \<and>
           toThing js d =
             Inr \<lparr>ID = ID t, Owner = Owner t, Name = Name t, Key = Key t, Metadata = m\<rparr>)) \<and>
   (\<forall>b m. len_md (Metadata t) > 0 \<and> Marshal js (Metadata t) = Inr b \<and>
      Unmarshal js b = Inr m \<longrightarrow>
      (\<exists>d. toDBThing js t = Inr d \<and>
           toThing js d =
             Inr \<lparr>ID = ID t, Owner = Owner t, Name = Name t, Key = Key t, Metadata = m\<rparr>)) \<and>
   ((\<forall>m b. plain_md m \<and> Marshal js m = Inr b \<longrightarrow> Unmarshal js b = Inr (decoded_md m)) \<and>
    Unmarshal js ''{}'' = Inr (Some []) \<and> plain_md (Metadata t) \<and>
    (len_md (Metadata t) = 0 \<or> (\<exists>b. Marshal js (Metadata t) = Inr b)) \<longrightarrow>
      (\<exists>d. toDBThing js t = Inr d \<and>
           toThing js d =
             Inr \<lparr>ID = ID t, Owner = Owner t, Name = Name t, Key = Key t,
                  Metadata =
                    (if len_md (Metadata t) > 0 then decoded_md (Metadata t)
                     else Some [])\<rparr>)) \<and>
   decoded_md (decoded_md (Metadata t)) = decoded_md (Metadata t)\<close>
proof (intro conjI allI impI)
  fix m
  assume "len_md (Metadata t) = 0 \<and> Unmarshal js ''{}'' = Inr m"
  then show "\<exists>d. toDBThing js t = Inr d \<and>
           toThing js d =
             Inr \<lparr>ID = ID t, Owner = Owner t, Name = Name t, Key = Key t, Metadata = m\<rparr>"
    by (simp add: toDBThing_def toThing_def Let_def)
next
  fix b m
  assume "len_md (Metadata t) > 0 \<and> Marshal js (Metadata t) = Inr b \<and> Unmarshal js b = Inr m"
  then show "\<exists>d. toDBThing js t = Inr d \<and>
           toThing js d =
             Inr \<lparr>ID = ID t, Owner = Owner t, Name = Name t, Key = Key t, Metadata = m\<rparr>"
    by (simp add: toDBThing_def toThing_def Let_def)
next
  assume a: \<open>(\<forall>m b. plain_md m \<and> Marshal js m = Inr b \<longrightarrow> Unmarshal js b = Inr (decoded_md m)) \<and>
    Unmarshal js ''{}'' = Inr (Some []) \<and> plain_md (Metadata t) \<and>
    (len_md (Metadata t) = 0 \<or> (\<exists>b. Marshal js (Metadata t) = Inr b))\<close>
  show "\<exists>d. toDBThing js t = Inr d \<and>
           toThing js d =
             Inr \<lparr>ID = ID t, Owner = Owner t, Name = Name t, Key = Key t,
                  Metadata =
                    (if len_md (Metadata t) > 0 then decoded_md (Metadata t)
                     else Some [])\<rparr>"
  proof (cases "len_md (Metadata t) > 0")
    case False
    with a show ?thesis by (simp add: toDBThing_def toThing_def Let_def)
  next
    case True
    with a obtain b where b: "Marshal js (Metadata t) = Inr b" by auto
    with a have "Unmarshal js b = Inr (decoded_md (Metadata t))" by blast
    with True b show ?thesis by (simp add: toDBThing_def toThing_def Let_def)
  qed
next
  show "decoded_md (decoded_md (Metadata t)) = decoded_md (Metadata t)"
    by (cases "Metadata t") (simp_all add: decoded_md_def decoded_twice)
qed

theorem codec_round_trip_witness:
  \<open>toThing compact_json gauge_row = Inr (gauge\<lparr>Metadata := Some [(''level'', JFloat 3)]\<rparr>) \<and>
   toThing compact_json lamp_row = Inr lamp \<and>
   toThing compact_json door_row = Inr (door\<lparr>Metadata := Some []\<rparr>) \<and>
   (\<exists>d. toDBThing compact_json gauge = Inr d \<and>
        toThing compact_json d =
          Inr \<lparr>ID = ID gauge, Owner = Owner gauge, Name = Name gauge, Key = Key gauge,
               Metadata = Some [(''level'', JFloat 3)]\<rparr>) \<and>
   (\<exists>d. toDBThing compact_json door = Inr d \<and>
        toThing compact_json d =
          Inr \<lparr>ID = ID door, Owner = Owner door, Name = Name door, Key = Key door,
               Metadata = Some []\<rparr>)\<close>
proof -
  note t = codec_round_trip [where js = compact_json]
  have law: "\<forall>m b. plain_md m \<and> Marshal compact_json m = Inr b \<longrightarrow>
               Unmarshal compact_json b = Inr (decoded_md m)"
    using compact_json_round_trip by blast
  have pg: "plain_md (Metadata gauge)"
    by (simp add: plain_md_def gauge_def ascii_def)
  have pl: "plain_md (Metadata lamp)"
    by (simp add: plain_md_def lamp_def ascii_def)
  have pd: "plain_md (Metadata door)"
    by (simp add: plain_md_def door_def)
  have lg: "len_md (Metadata gauge) > 0"
    by (simp add: gauge_def)
  have ld: "len_md (Metadata door) = 0"
    by (simp add: door_def)
  have mg: \<open>Marshal compact_json (Metadata gauge) = Inr ''{"level":3}''\<close>
    by (simp add: gauge_def codec_defs show_int_def show_nat.simps)
  have ug: \<open>Unmarshal compact_json ''{"level":3}'' = Inr (Some [(''level'', JFloat 3)])\<close>
    by (simp add: codec_defs is_digit_def read_nat_def)
  have ml: \<open>Marshal compact_json (Metadata lamp) = Inr ''{"region":"eu"}''\<close>
    by (simp add: lamp_def codec_defs)
  have dg: "toDBThing compact_json gauge = Inr gauge_row"
    by (simp add: toDBThing_def gauge_def gauge_row_def codec_defs show_int_def show_nat.simps)
  have g: "toThing compact_json gauge_row =
             Inr (gauge\<lparr>Metadata := Some [(''level'', JFloat 3)]\<rparr>)"
    using t [where t = gauge, THEN conjunct2, THEN conjunct2, THEN conjunct1]
      law Unmarshal_empty_object pg mg dg
    by (simp add: gauge_def decoded_md_def)
  have l: "toThing compact_json lamp_row = Inr lamp"
    using t [where t = lamp, THEN conjunct2, THEN conjunct2, THEN conjunct1]
      law Unmarshal_empty_object pl ml toDBThing_lamp
    by (simp add: lamp_def decoded_md_def)
  have d: "toThing compact_json door_row = Inr (door\<lparr>Metadata := Some []\<rparr>)"
    using t [where t = door, THEN conjunct2, THEN conjunct2, THEN conjunct1]
      law Unmarshal_empty_object pd toDBThing_door
    by (simp add: door_def)
  have g2: "\<exists>d. toDBThing compact_json gauge = Inr d \<and>
        toThing compact_json d =
          Inr \<lparr>ID = ID gauge, Owner = Owner gauge, Name = Name gauge, Key = Key gauge,
               Metadata = Some [(''level'', JFloat 3)]\<rparr>"
    using t [where t = gauge, THEN conjunct2, THEN conjunct1, rule_format,
        of \<open>''{"level":3}''\<close> "Some [(''level'', JFloat 3)]"] lg mg ug
    by simp
  have d2: "\<exists>d. toDBThing compact_json door = Inr d \<and>
        toThing compact_json d =
          Inr \<lparr>ID = ID door, Owner = Owner door, Name = Name door, Key = Key door,
               Metadata = Some []\<rparr>"
    using t [where t = door, THEN conjunct1, rule_format, of "Some []"]
      ld Unmarshal_empty_object
    by simp
  from g l d g2 d2 show ?thesis by blast
qed

section \<open>What Save and Update hand to the store\<close>

lemma Save_loop_logged:
  "Save_loop js (logged db) tx ts (s, lg) = (r, (s', lg')) \<Longrightarrow>
     \<exists>new. lg' = lg @ new \<and>
       list_all (\<lambda>(q, d). q = InsertThing \<and> (\<exists>t \<in> set ts. toDBThing js t = Inr d)) new"
proof (induction ts arbitrary: s lg)
  case Nil
  then show ?case by simp
next
  case (Cons t ts)
  show ?case
  proof (cases "toDBThing js t")
    case (Inl e)
    with Cons.prems show ?thesis by simp
  next
    case (Inr d)
    obtain x s1 where ex: "TxNamedExecContext db tx InsertThing d s = (x, s1)"
      by (cases "TxNamedExecContext db tx InsertThing d s")
    show ?thesis
    proof (cases x)
      case (Inl e)
      obtain y s2 where rb: "TxRollback db tx s1 = (y, s2)"
        by (cases "TxRollback db tx s1")
      from Cons.prems Inr ex Inl rb have "lg' = lg @ [(InsertThing, d)]"
        by (auto simp: logged_def Let_def split: error.splits if_splits)
      with Inr show ?thesis by simp
    next
      case (Inr res)
      with Cons.prems \<open>toDBThing js t = Inr d\<close> ex
      have "Save_loop js (logged db) tx ts (s1, lg @ [(InsertThing, d)]) = (r, (s', lg'))"
        by (simp add: logged_def)
      from Cons.IH [OF this] obtain new where
        n: "lg' = (lg @ [(InsertThing, d)]) @ new"
        "list_all (\<lambda>(q, d). q = InsertThing \<and> (\<exists>t \<in> set ts. toDBThing js t = Inr d)) new"
        by blast
      have "list_all (\<lambda>(q, d). q = InsertThing \<and> (\<exists>t \<in> set (t # ts). toDBThing js t = Inr d))
              ((InsertThing, d) # new)"
        using n(2) \<open>toDBThing js t = Inr d\<close> by (auto simp: list_all_iff)
      with n(1) show ?thesis by (intro exI [of _ "(InsertThing, d) # new"]) simp
    qed
  qed
qed

lemma Save_logged:
  assumes "Save js (logged db) ths (s, lg) = (r, (s', lg'))"
  shows "\<exists>new. lg' = lg @ new \<and>
       list_all (\<lambda>(q, d). q = InsertThing \<and> (\<exists>t \<in> set (elems ths). toDBThing js t = Inr d)) new"
proof -
  obtain x s0 where b: "BeginTxx db s = (x, s0)" by (cases "BeginTxx db s")
  show ?thesis
  proof (cases x)
    case (Inl e)
    with assms b have "lg' = lg" by (simp add: Save_def logged_def)
    then show ?thesis by simp
  next
    case (Inr tx)
    obtain y s1 l1 where lp: "Save_loop js (logged db) tx (elems ths) (s0, lg) = (y, (s1, l1))"
      by (cases "Save_loop js (logged db) tx (elems ths) (s0, lg)") auto
    from Save_loop_logged [OF lp] obtain new where
      n: "l1 = lg @ new"
      "list_all (\<lambda>(q, d). q = InsertThing \<and> (\<exists>t \<in> set (elems ths). toDBThing js t = Inr d)) new"
      by blast
    obtain z s2 where c: "TxCommit db tx s1 = (z, s2)" by (cases "TxCommit db tx s1")
    from assms b Inr lp c have "lg' = l1"
      by (auto simp: Save_def logged_def split: option.splits)
    with n show ?thesis by blast
  qed
qed

lemma Update_logged:
  assumes "Update js (logged db) t (s, lg) = (r, (s', lg'))"
  shows "lg' = lg \<or> (\<exists>d. toDBThing js t = Inr d \<and> lg' = lg @ [(UpdateThing, d)])"
proof (cases "toDBThing js t")
  case (Inl e)
  with assms show ?thesis by (simp add: Update_def)
next
  case (Inr d)
  obtain x s1 where ex: "NamedExecContext db UpdateThing d s = (x, s1)"
    by (cases "NamedExecContext db UpdateThing d s")
  with assms Inr have "lg' = lg @ [(UpdateThing, d)]"
    by (auto simp: Update_def logged_def Let_def RowsAffected_def
             split: sum.splits error.splits if_splits)
  with Inr show ?thesis by simp
qed

text \<open>
  C8. Whatever the store and the JSON library, every row that \<open>Save\<close> or \<open>Update\<close> hands
  to the store for a Thing \<open>t\<close> of the call carries as metadata the serialized empty object
  \<^verbatim>\<open>{}\<close>, and so not \<^verbatim>\<open>null\<close>, when the metadata of \<open>t\<close> is empty or absent, and the bytes
  \<^verbatim>\<open>json.Marshal\<close> gives for the mapping when it is non-empty. \<open>Save\<close> hands over rows of
  its Things with the insert statement only, \<open>Update\<close> at most one row of its Thing.
\<close>

theorem persisted_metadata_encoding:
  \<open>(Save js (logged db) ths (s, lg) = (r, (s', lg')) \<longrightarrow>
      (\<exists>new. lg' = lg @ new \<and>
         (\<forall>(q, d) \<in> set new. q = InsertThing \<and>
            (\<exists>t \<in> set (elems ths).
               dbID d = ID t \<and> dbOwner d = Owner t \<and>
               (if len_md (Metadata t) = 0
                  then dbMetadata d = ''{}'' \<and> dbMetadata d \<noteq> ''null''
                else Marshal js (Metadata t) = Inr (dbMetadata d)))))) \<and>
   (Update js (logged db) u (sa, la) = (ra, (sb, lb)) \<longrightarrow>
      (\<exists>new. lb = la @ new \<and> length new \<le> 1 \<and>
         (\<forall>(q, d) \<in> set new. q = UpdateThing \<and>
            dbID d = ID u \<and> dbOwner d = Owner u \<and>
            (if len_md (Metadata u) = 0
               then dbMetadata d = ''{}'' \<and> dbMetadata d \<noteq> ''null''
             else Marshal js (Metadata u) = Inr (dbMetadata d)))))\<close>
proof (intro conjI impI)
  assume a: "Save js (logged db) ths (s, lg) = (r, (s', lg'))"
  from Save_logged [OF a] obtain new where
    n: "lg' = lg @ new"
    "list_all (\<lambda>(q, d). q = InsertThing \<and> (\<exists>t \<in> set (elems ths). toDBThing js t = Inr d)) new"
    by blast
  have \<open>\<forall>(q, d) \<in> set new. q = InsertThing \<and>
            (\<exists>t \<in> set (elems ths).
               dbID d = ID t \<and> dbOwner d = Owner t \<and>
               (if len_md (Metadata t) = 0
                  then dbMetadata d = ''{}'' \<and> dbMetadata d \<noteq> ''null''
                else Marshal js (Metadata t) = Inr (dbMetadata d)))\<close>
  proof (clarify, intro conjI)
    fix q d assume m: "(q, d) \<in> set new"
    with n(2) show "q = InsertThing" by (auto simp: list_all_iff)
    from m n(2) obtain t where t: "t \<in> set (elems ths)" "toDBThing js t = Inr d"
      by (auto simp: list_all_iff)
    from toDBThing_fields [OF t(2)] toDBThing_metadata [OF t(2)] t(1)
    show \<open>\<exists>t \<in> set (elems ths).
               dbID d = ID t \<and> dbOwner d = Owner t \<and>
               (if len_md (Metadata t) = 0
                  then dbMetadata d = ''{}'' \<and> dbMetadata d \<noteq> ''null''
                else Marshal js (Metadata t) = Inr (dbMetadata d))\<close>
      by (intro bexI [of _ t]) (auto split: if_splits)
  qed
  with n(1) show \<open>\<exists>new. lg' = lg @ new \<and>
         (\<forall>(q, d) \<in> set new. q = InsertThing \<and>
            (\<exists>t \<in> set (elems ths).
               dbID d = ID t \<and> dbOwner d = Owner t \<and>
               (if len_md (Metadata t) = 0
                  then dbMetadata d = ''{}'' \<and> dbMetadata d \<noteq> ''null''
                else Marshal js (Metadata t) = Inr (dbMetadata d))))\<close>
    by blast
next
  assume a: "Update js (logged db) u (sa, la) = (ra, (sb, lb))"
  from Update_logged [OF a]
  show \<open>\<exists>new. lb = la @ new \<and> length new \<le> 1 \<and>
         (\<forall>(q, d) \<in> set new. q = UpdateThing \<and>
            dbID d = ID u \<and> dbOwner d = Owner u \<and>
            (if len_md (Metadata u) = 0
               then dbMetadata d = ''{}'' \<and> dbMetadata d \<noteq> ''null''
             else Marshal js (Metadata u) = Inr (dbMetadata d)))\<close>
  proof
    assume "lb = la"
    then show ?thesis by (intro exI [of _ "[]"]) simp
  next
    assume "\<exists>d. toDBThing js u = Inr d \<and> lb = la @ [(UpdateThing, d)]"
    then obtain d where d: "toDBThing js u = Inr d" "lb = la @ [(UpdateThing, d)]"
      by blast
    from toDBThing_fields [OF d(1)] toDBThing_metadata [OF d(1)] d(2)
    show ?thesis by (intro exI [of _ "[(UpdateThing, d)]"]) (auto split: if_splits)
  qed
qed

theorem persisted_metadata_encoding_witness:
  \<open>Save compact_json (logged mdb) (Slice [lamp, door]) (store0, []) =
     ((Slice [lamp, door], None),
      (store0\<lparr>things_table := [lamp_row, door_row], next_tx := 1\<rparr>,
       [(InsertThing, lamp_row), (InsertThing, door_row)])) \<and>
   Update compact_json (logged mdb) (lamp\<lparr>Metadata := Some []\<rparr>)
       (store0\<lparr>things_table := [lamp_row]\<rparr>, []) =
     (None,
      (store0\<lparr>things_table := [lamp_row\<lparr>dbMetadata := ''{}''\<rparr>]\<rparr>,
       [(UpdateThing, lamp_row\<lparr>dbMetadata := ''{}''\<rparr>)])) \<and>
   dbMetadata door_row = ''{}'' \<and>
   Marshal compact_json (Metadata lamp) = Inr (dbMetadata lamp_row)\<close>
proof -
  have a: \<open>Save compact_json (logged mdb) (Slice [lamp, door]) (store0, []) =
     ((Slice [lamp, door], None),
      (store0\<lparr>things_table := [lamp_row, door_row], next_tx := 1\<rparr>,
       [(InsertThing, lamp_row), (InsertThing, door_row)]))\<close>
    by (simp add: Save_def logged_def toDBThing_lamp toDBThing_door mem_defs store0_def
          lamp_row_def door_row_def)
  have b: \<open>Update compact_json (logged mdb) (lamp\<lparr>Metadata := Some []\<rparr>)
       (store0\<lparr>things_table := [lamp_row]\<rparr>, []) =
     (None,
      (store0\<lparr>things_table := [lamp_row\<lparr>dbMetadata := ''{}''\<rparr>]\<rparr>,
       [(UpdateThing, lamp_row\<lparr>dbMetadata := ''{}''\<rparr>)]))\<close>
    by (simp add: Update_def logged_def toDBThing_def RowsAffected_def mem_defs store0_def
          lamp_row_def lamp_def)
  have c: \<open>dbMetadata door_row = ''{}''\<close>
    using persisted_metadata_encoding
      [of compact_json mdb "Slice [lamp, door]" store0 "[]" "(Slice [lamp, door], None)"
        "store0\<lparr>things_table := [lamp_row, door_row], next_tx := 1\<rparr>"
        "[(InsertThing, lamp_row), (InsertThing, door_row)]"
        "lamp\<lparr>Metadata := Some []\<rparr>" "store0\<lparr>things_table := [lamp_row]\<rparr>" "[]" None
        "store0\<lparr>things_table := [lamp_row\<lparr>dbMetadata := ''{}''\<rparr>]\<rparr>"
        "[(UpdateThing, lamp_row\<lparr>dbMetadata := ''{}''\<rparr>)]"] a b
    by (simp add: door_row_def)
  have d: "Marshal compact_json (Metadata lamp) = Inr (dbMetadata lamp_row)"
    by (simp add: lamp_def lamp_row_def codec_defs)
  from a b c d show ?thesis by blast
qed

section \<open>Save\<close>

lemma Save_loop_success:
  "Save_loop js db tx ts s = (None, s1) \<Longrightarrow>
     \<exists>rows. map (toDBThing js) ts = map Inr rows \<and> insert_all db tx rows s = Some s1"
proof (induction ts arbitrary: s)
  case Nil
  then show ?case by simp
next
  case (Cons t ts)
  from Cons.prems obtain d where d: "toDBThing js t = Inr d"
    by (cases "toDBThing js t") auto
  obtain x s2 where ex: "TxNamedExecContext db tx InsertThing d s = (x, s2)"
    by (cases "TxNamedExecContext db tx InsertThing d s")
  from Cons.prems d ex obtain res where res: "x = Inr res"
    by (cases x) (auto simp: Let_def split: error.splits if_splits)
  from Cons.prems d ex res have "Save_loop js db tx ts s2 = (None, s1)" by simp
  from Cons.IH [OF this] obtain rows where
    "map (toDBThing js) ts = map Inr rows" "insert_all db tx rows s2 = Some s1"
    by blast
  with d ex res show ?case by (intro exI [of _ "d # rows"]) simp
qed

lemma Save_loop_error:
  "Save_loop js db tx ts s = (Some e, s') \<Longrightarrow>
     \<exists>pre t post rows s1. ts = pre @ t # post \<and>
       map (toDBThing js) pre = map Inr rows \<and> insert_all db tx rows s = Some s1 \<and>
       ((\<exists>c. toDBThing js t = Inl c \<and> e = Wrap ErrCreateEntity c \<and> s' = s1) \<or>
        (\<exists>d c s2. toDBThing js t = Inr d \<and>
           TxNamedExecContext db tx InsertThing d s1 = (Inl c, s2) \<and>
           e = Wrap (Save_insert_kind c) c \<and> s' = snd (TxRollback db tx s2)))"
proof (induction ts arbitrary: s)
  case Nil
  then show ?case by simp
next
  case (Cons t ts)
  show ?case
  proof (cases "toDBThing js t")
    case (Inl c)
    with Cons.prems have "e = Wrap ErrCreateEntity c" "s' = s" by auto
    with Inl show ?thesis
      by (intro exI [of _ "[]"] exI [of _ t] exI [of _ ts] exI [of _ s]) simp
  next
    case (Inr d)
    obtain x s2 where ex: "TxNamedExecContext db tx InsertThing d s = (x, s2)"
      by (cases "TxNamedExecContext db tx InsertThing d s")
    show ?thesis
    proof (cases x)
      case (Inl c)
      with Cons.prems Inr ex
      have "e = Wrap (Save_insert_kind c) c" "s' = snd (TxRollback db tx s2)"
        by (auto simp: Let_def Save_insert_kind_def split: error.splits if_splits)
      with Inr ex Inl show ?thesis
        by (intro exI [of _ "[]"] exI [of _ t] exI [of _ ts] exI [of _ s]) simp
    next
      case (Inr res)
      with Cons.prems \<open>toDBThing js t = Inr d\<close> ex
      have "Save_loop js db tx ts s2 = (Some e, s')" by simp
      from Cons.IH [OF this] obtain pre u post rows s1 where
        ih: "ts = pre @ u # post" "map (toDBThing js) pre = map Inr rows"
          "insert_all db tx rows s2 = Some s1"
          "(\<exists>c. toDBThing js u = Inl c \<and> e = Wrap ErrCreateEntity c \<and> s' = s1) \<or>
           (\<exists>d c s2. toDBThing js u = Inr d \<and>
              TxNamedExecContext db tx InsertThing d s1 = (Inl c, s2) \<and>
              e = Wrap (Save_insert_kind c) c \<and> s' = snd (TxRollback db tx s2))"
        by blast
      from ih(1-3) \<open>toDBThing js t = Inr d\<close> ex Inr
      have "t # ts = (t # pre) @ u # post \<and>
            map (toDBThing js) (t # pre) = map Inr (d # rows) \<and>
            insert_all db tx (d # rows) s = Some s1"
        by simp
      with ih(4) show ?thesis by blast
    qed
  qed
qed

lemma Save_loop_prefix:
  "map (toDBThing js) pre = map Inr rows \<Longrightarrow> insert_all db tx rows s = Some s1 \<Longrightarrow>
     Save_loop js db tx (pre @ rest) s = Save_loop js db tx rest s1"
proof (induction pre arbitrary: rows s)
  case Nil
  then show ?case by simp
next
  case (Cons t pre)
  from Cons.prems(1) obtain d rows' where r: "rows = d # rows'" "toDBThing js t = Inr d"
    "map (toDBThing js) pre = map Inr rows'"
    by (cases rows) auto
  obtain x s2 where ex: "TxNamedExecContext db tx InsertThing d s = (x, s2)"
    by (cases "TxNamedExecContext db tx InsertThing d s")
  from Cons.prems(2) r(1) ex obtain res where res: "x = Inr res"
    "insert_all db tx rows' s2 = Some s1"
    by (cases x) auto
  from Cons.IH [OF r(3) res(2)] r(2) ex res(1) show ?case by simp
qed

lemma Save_loop_encode_failure:
  assumes "ts = pre @ t # post" "map (toDBThing js) pre = map Inr rows"
    "insert_all db tx rows s = Some s1" "toDBThing js t = Inl c"
  shows "Save_loop js db tx ts s = (Some (Wrap ErrCreateEntity c), s1)"
  using Save_loop_prefix [OF assms(2,3), of "t # post"] assms(1,4) by simp

lemma Save_loop_insert_failure:
  assumes "ts = pre @ t # post" "map (toDBThing js) pre = map Inr rows"
    "insert_all db tx rows s = Some s1" "toDBThing js t = Inr d"
    "TxNamedExecContext db tx InsertThing d s1 = (Inl c, s2)"
  shows "Save_loop js db tx ts s =
           (Some (Wrap (Save_insert_kind c) c), snd (TxRollback db tx s2))"
proof -
  have "Save_loop js db tx (t # post) s1 =
          (Some (Wrap (Save_insert_kind c) c), snd (TxRollback db tx s2))"
    using assms(4,5)
    by (auto simp: Let_def Save_insert_kind_def split: error.splits)
  with Save_loop_prefix [OF assms(2,3), of "t # post"] assms(1) show ?thesis by simp
qed

lemma Save_loop_all_inserted:
  assumes "map (toDBThing js) ts = map Inr rows" "insert_all db tx rows s = Some s1"
  shows "Save_loop js db tx ts s = (None, s1)"
  using Save_loop_prefix [OF assms, of "[]"] by simp

lemma Save_begin_failure:
  "BeginTxx db s = (Inl c, s0) \<Longrightarrow>
     Save js db ths s = ((Slice [], Some (Wrap ErrCreateEntity c)), s0)"
  by (simp add: Save_def)

lemma Save_encode_failure:
  assumes "BeginTxx db s = (Inr tx, s0)" "elems ths = pre @ t # post"
    "map (toDBThing js) pre = map Inr rows" "insert_all db tx rows s0 = Some s1"
    "toDBThing js t = Inl c"
  shows "Save js db ths s = ((Slice [], Some (Wrap ErrCreateEntity c)), s1)"
  using Save_loop_encode_failure [OF assms(2-5)] assms(1) by (simp add: Save_def)

lemma Save_insert_failure:
  assumes "BeginTxx db s = (Inr tx, s0)" "elems ths = pre @ t # post"
    "map (toDBThing js) pre = map Inr rows" "insert_all db tx rows s0 = Some s1"
    "toDBThing js t = Inr d" "TxNamedExecContext db tx InsertThing d s1 = (Inl c, s2)"
  shows "Save js db ths s =
           ((Slice [], Some (Wrap (Save_insert_kind c) c)), snd (TxRollback db tx s2))"
  using Save_loop_insert_failure [OF assms(2-6)] assms(1) by (simp add: Save_def)

lemma Save_commit_failure:
  assumes "BeginTxx db s = (Inr tx, s0)" "map (toDBThing js) (elems ths) = map Inr rows"
    "insert_all db tx rows s0 = Some s1" "TxCommit db tx s1 = (Some c, s2)"
  shows "Save js db ths s = ((Slice [], Some (Wrap ErrCreateEntity c)), s2)"
  using Save_loop_all_inserted [OF assms(2,3)] assms(1,4) by (simp add: Save_def)

lemma Save_insert_kind_cases:
  "(c = PqError errInvalid \<or> c = PqError errTruncation \<longrightarrow>
      Save_insert_kind c = ErrMalformedEntity) \<and>
   (c = PqError errDuplicate \<longrightarrow> Save_insert_kind c = ErrConflict) \<and>
   (c \<noteq> PqError errInvalid \<and> c \<noteq> PqError errTruncation \<and> c \<noteq> PqError errDuplicate \<longrightarrow>
      Save_insert_kind c = ErrCreateEntity)"
  by (auto simp: Save_insert_kind_def errInvalid_def errTruncation_def errDuplicate_def)


lemma Save_error_causes:
  assumes "Save js db ths s = ((r, Some e), s')"
  shows "(\<exists>c. fst (BeginTxx db s) = Inl c \<and> e = Wrap ErrCreateEntity c) \<or>
     (\<exists>tx s0. BeginTxx db s = (Inr tx, s0) \<and>
        ((\<exists>pre t post rows s1 c. elems ths = pre @ t # post \<and>
            map (toDBThing js) pre = map Inr rows \<and> insert_all db tx rows s0 = Some s1 \<and>
            toDBThing js t = Inl c \<and> e = Wrap ErrCreateEntity c) \<or>
         (\<exists>pre t post rows s1 d c. elems ths = pre @ t # post \<and>
            map (toDBThing js) pre = map Inr rows \<and> insert_all db tx rows s0 = Some s1 \<and>
            toDBThing js t = Inr d \<and>
            fst (TxNamedExecContext db tx InsertThing d s1) = Inl c \<and>
            e = Wrap (Save_insert_kind c) c) \<or>
         (\<exists>rows s1 c. map (toDBThing js) (elems ths) = map Inr rows \<and>
            insert_all db tx rows s0 = Some s1 \<and>
            fst (TxCommit db tx s1) = Some c \<and> e = Wrap ErrCreateEntity c)))"
proof -
  obtain x s0 where b: "BeginTxx db s = (x, s0)" by (cases "BeginTxx db s")
  show ?thesis
  proof (cases x)
    case (Inl c)
    with assms b show ?thesis by (simp add: Save_def)
  next
    case (Inr tx)
    obtain y s1 where lp: "Save_loop js db tx (elems ths) s0 = (y, s1)"
      by (cases "Save_loop js db tx (elems ths) s0")
    have "(\<exists>pre t post rows s1 c. elems ths = pre @ t # post \<and>
            map (toDBThing js) pre = map Inr rows \<and> insert_all db tx rows s0 = Some s1 \<and>
            toDBThing js t = Inl c \<and> e = Wrap ErrCreateEntity c) \<or>
         (\<exists>pre t post rows s1 d c. elems ths = pre @ t # post \<and>
            map (toDBThing js) pre = map Inr rows \<and> insert_all db tx rows s0 = Some s1 \<and>
            toDBThing js t = Inr d \<and>
            fst (TxNamedExecContext db tx InsertThing d s1) = Inl c \<and>
            e = Wrap (Save_insert_kind c) c) \<or>
         (\<exists>rows s1 c. map (toDBThing js) (elems ths) = map Inr rows \<and>
            insert_all db tx rows s0 = Some s1 \<and>
            fst (TxCommit db tx s1) = Some c \<and> e = Wrap ErrCreateEntity c)"
    proof (cases y)
      case (Some e')
      with assms b Inr lp have "e' = e" by (simp add: Save_def)
      with lp Some have "Save_loop js db tx (elems ths) s0 = (Some e, s1)" by simp
      from Save_loop_error [OF this] obtain pre t post rows s2 where
        l: "elems ths = pre @ t # post" "map (toDBThing js) pre = map Inr rows"
          "insert_all db tx rows s0 = Some s2"
          "(\<exists>c. toDBThing js t = Inl c \<and> e = Wrap ErrCreateEntity c \<and> s1 = s2) \<or>
           (\<exists>d c s3. toDBThing js t = Inr d \<and>
              TxNamedExecContext db tx InsertThing d s2 = (Inl c, s3) \<and>
              e = Wrap (Save_insert_kind c) c \<and> s1 = snd (TxRollback db tx s3))"
        by blast
      from l(4) show ?thesis
      proof
        assume "\<exists>c. toDBThing js t = Inl c \<and> e = Wrap ErrCreateEntity c \<and> s1 = s2"
        with l(1-3) show ?thesis by blast
      next
        assume "\<exists>d c s3. toDBThing js t = Inr d \<and>
              TxNamedExecContext db tx InsertThing d s2 = (Inl c, s3) \<and>
              e = Wrap (Save_insert_kind c) c \<and> s1 = snd (TxRollback db tx s3)"
        then obtain d c s3 where "toDBThing js t = Inr d"
          "fst (TxNamedExecContext db tx InsertThing d s2) = Inl c"
          "e = Wrap (Save_insert_kind c) c"
          by auto
        with l(1-3) show ?thesis by blast
      qed
    next
      case None
      from Save_loop_success [OF lp [unfolded None]] obtain rows where
        rows: "map (toDBThing js) (elems ths) = map Inr rows"
          "insert_all db tx rows s0 = Some s1"
        by blast
      obtain z s2 where c: "TxCommit db tx s1 = (z, s2)" by (cases "TxCommit db tx s1")
      with assms b Inr lp None obtain c' where "z = Some c'" "e = Wrap ErrCreateEntity c'"
        by (cases z) (auto simp: Save_def)
      with c have "fst (TxCommit db tx s1) = Some c' \<and> e = Wrap ErrCreateEntity c'" by simp
      with rows show ?thesis by blast
    qed
    with b Inr show ?thesis by blast
  qed
qed

text \<open>
  C2. For every call of \<open>Save\<close>, on every store, the first failure decides the error
  returned, and the error wraps that failure. A transaction that cannot be begun gives
  \<open>ErrCreateEntity\<close>. With the Things before it encoded and inserted, a Thing that cannot
  be encoded gives \<open>ErrCreateEntity\<close>, and a Thing whose insert the store refuses gives
  \<open>ErrMalformedEntity\<close> when the store reports \<^verbatim>\<open>invalid_text_representation\<close> or
  \<^verbatim>\<open>string_data_right_truncation\<close>, \<open>ErrConflict\<close> when it reports \<^verbatim>\<open>unique_violation\<close>, and
  \<open>ErrCreateEntity\<close> for any other error. With every Thing inserted, a commit that fails
  gives \<open>ErrCreateEntity\<close>. And an error that \<open>Save\<close> returns comes from one of these
  failures.
\<close>

theorem Save_error_kinds:
  "(\<forall>c s0. BeginTxx db s = (Inl c, s0) \<longrightarrow>
      Save js db ths s = ((Slice [], Some (Wrap ErrCreateEntity c)), s0)) \<and>
   (\<forall>tx s0 pre t post rows s1.
      BeginTxx db s = (Inr tx, s0) \<and> elems ths = pre @ t # post \<and>
      map (toDBThing js) pre = map Inr rows \<and> insert_all db tx rows s0 = Some s1 \<longrightarrow>
        (\<forall>c. toDBThing js t = Inl c \<longrightarrow>
           Save js db ths s = ((Slice [], Some (Wrap ErrCreateEntity c)), s1)) \<and>
        (\<forall>d c s2. toDBThing js t = Inr d \<and>
              TxNamedExecContext db tx InsertThing d s1 = (Inl c, s2) \<longrightarrow>
           (c = PqError errInvalid \<or> c = PqError errTruncation \<longrightarrow>
              fst (Save js db ths s) = (Slice [], Some (Wrap ErrMalformedEntity c))) \<and>
           (c = PqError errDuplicate \<longrightarrow>
              fst (Save js db ths s) = (Slice [], Some (Wrap ErrConflict c))) \<and>
           (c \<noteq> PqError errInvalid \<and> c \<noteq> PqError errTruncation \<and>
            c \<noteq> PqError errDuplicate \<longrightarrow>
              fst (Save js db ths s) = (Slice [], Some (Wrap ErrCreateEntity c))) \<and>
           snd (Save js db ths s) = snd (TxRollback db tx s2))) \<and>
   (\<forall>tx s0 rows s1 c s2.
      BeginTxx db s = (Inr tx, s0) \<and> map (toDBThing js) (elems ths) = map Inr rows \<and>
      insert_all db tx rows s0 = Some s1 \<and> TxCommit db tx s1 = (Some c, s2) \<longrightarrow>
        Save js db ths s = ((Slice [], Some (Wrap ErrCreateEntity c)), s2)) \<and>
   (\<forall>r e s'. Save js db ths s = ((r, Some e), s') \<longrightarrow>
     (\<exists>c. fst (BeginTxx db s) = Inl c \<and> e = Wrap ErrCreateEntity c) \<or>
     (\<exists>tx s0. BeginTxx db s = (Inr tx, s0) \<and>
        ((\<exists>pre t post rows s1 c. elems ths = pre @ t # post \<and>
            map (toDBThing js) pre = map Inr rows \<and> insert_all db tx rows s0 = Some s1 \<and>
            toDBThing js t = Inl c \<and> e = Wrap ErrCreateEntity c) \<or>
         (\<exists>pre t post rows s1 d c. elems ths = pre @ t # post \<and>
            map (toDBThing js) pre = map Inr rows \<and> insert_all db tx rows s0 = Some s1 \<and>
            toDBThing js t = Inr d \<and>
            fst (TxNamedExecContext db tx InsertThing d s1) = Inl c \<and>
            e = Wrap (Save_insert_kind c) c) \<or>
         (\<exists>rows s1 c. map (toDBThing js) (elems ths) = map Inr rows \<and>
            insert_all db tx rows s0 = Some s1 \<and>
            fst (TxCommit db tx s1) = Some c \<and> e = Wrap ErrCreateEntity c))))"
proof (intro conjI allI impI)
  fix c s0
  assume "BeginTxx db s = (Inl c, s0)"
  then show "Save js db ths s = ((Slice [], Some (Wrap ErrCreateEntity c)), s0)"
    by (rule Save_begin_failure)
next
  fix tx s0 pre t post rows s1 c
  assume a: "BeginTxx db s = (Inr tx, s0) \<and> elems ths = pre @ t # post \<and>
      map (toDBThing js) pre = map Inr rows \<and> insert_all db tx rows s0 = Some s1"
    and b: "toDBThing js t = Inl c"
  from a b show "Save js db ths s = ((Slice [], Some (Wrap ErrCreateEntity c)), s1)"
    by (intro Save_encode_failure [of db s tx s0 ths pre t post js rows s1 c]) simp_all
next
  fix tx s0 pre t post rows s1 d c s2
  assume a: "BeginTxx db s = (Inr tx, s0) \<and> elems ths = pre @ t # post \<and>
      map (toDBThing js) pre = map Inr rows \<and> insert_all db tx rows s0 = Some s1"
    and b: "toDBThing js t = Inr d \<and> TxNamedExecContext db tx InsertThing d s1 = (Inl c, s2)"
  from a b have sv: "Save js db ths s =
      ((Slice [], Some (Wrap (Save_insert_kind c) c)), snd (TxRollback db tx s2))"
    by (intro Save_insert_failure [of db s tx s0 ths pre t post js rows s1 d c s2]) simp_all
  then show "snd (Save js db ths s) = snd (TxRollback db tx s2)" by simp
  {
    assume "c = PqError errInvalid \<or> c = PqError errTruncation"
    with sv Save_insert_kind_cases [of c]
    show "fst (Save js db ths s) = (Slice [], Some (Wrap ErrMalformedEntity c))" by simp
  }
  {
    assume "c = PqError errDuplicate"
    with sv Save_insert_kind_cases [of c]
    show "fst (Save js db ths s) = (Slice [], Some (Wrap ErrConflict c))" by simp
  }
  {
    assume "c \<noteq> PqError errInvalid \<and> c \<noteq> PqError errTruncation \<and> c \<noteq> PqError errDuplicate"
    with sv Save_insert_kind_cases [of c]
    show "fst (Save js db ths s) = (Slice [], Some (Wrap ErrCreateEntity c))" by simp
  }
next
  fix tx s0 rows s1 c s2
  assume "BeginTxx db s = (Inr tx, s0) \<and> map (toDBThing js) (elems ths) = map Inr rows \<and>
      insert_all db tx rows s0 = Some s1 \<and> TxCommit db tx s1 = (Some c, s2)"
  then show "Save js db ths s = ((Slice [], Some (Wrap ErrCreateEntity c)), s2)"
    by (intro Save_commit_failure [of db s tx s0 js ths rows s1 c s2]) simp_all
next
  fix r e s'
  assume "Save js db ths s = ((r, Some e), s')"
  then show "(\<exists>c. fst (BeginTxx db s) = Inl c \<and> e = Wrap ErrCreateEntity c) \<or>
     (\<exists>tx s0. BeginTxx db s = (Inr tx, s0) \<and>
        ((\<exists>pre t post rows s1 c. elems ths = pre @ t # post \<and>
            map (toDBThing js) pre = map Inr rows \<and> insert_all db tx rows s0 = Some s1 \<and>
            toDBThing js t = Inl c \<and> e = Wrap ErrCreateEntity c) \<or>
         (\<exists>pre t post rows s1 d c. elems ths = pre @ t # post \<and>
            map (toDBThing js) pre = map Inr rows \<and> insert_all db tx rows s0 = Some s1 \<and>
            toDBThing js t = Inr d \<and>
            fst (TxNamedExecContext db tx InsertThing d s1) = Inl c \<and>
            e = Wrap (Save_insert_kind c) c) \<or>
         (\<exists>rows s1 c. map (toDBThing js) (elems ths) = map Inr rows \<and>
            insert_all db tx rows s0 = Some s1 \<and>
            fst (TxCommit db tx s1) = Some c \<and> e = Wrap ErrCreateEntity c)))"
    by (rule Save_error_causes)
qed

theorem Save_error_kinds_witness:
  "Save compact_json mdb (Slice [lamp, door]) failing_store =
     ((Slice [], Some (Wrap ErrCreateEntity (OtherError ''connection refused''))), store0) \<and>
   Save compact_json mdb (Slice [lamp, probe]) store0 =
     ((Slice [],
       Some (Wrap ErrCreateEntity
               (Wrap ErrMalformedEntity (OtherError ''json: unsupported type'')))),
      store0\<lparr>open_txs := [(0, [lamp_row])], next_tx := 1\<rparr>) \<and>
   fst (Save compact_json mdb (Slice [lamp, lamp]) store0) =
     (Slice [], Some (Wrap ErrConflict (PqError errDuplicate))) \<and>
   fst (Save compact_json mdb (Slice [lamp, door\<lparr>ID := ''not-a-uuid''\<rparr>]) store0) =
     (Slice [], Some (Wrap ErrMalformedEntity (PqError errInvalid))) \<and>
   Save compact_json mdb (Slice [lamp])
       (store0\<lparr>faults := [None, None, Some (OtherError ''connection reset'')]\<rparr>) =
     ((Slice [], Some (Wrap ErrCreateEntity (OtherError ''connection reset''))),
      store0\<lparr>next_tx := 1\<rparr>)"
proof -
  let ?open = "store0\<lparr>open_txs := [(0, [])], next_tx := 1\<rparr>"
  let ?one = "store0\<lparr>open_txs := [(0, [lamp_row])], next_tx := 1\<rparr>"
  have bf: "BeginTxx mdb failing_store = (Inl (OtherError ''connection refused''), store0)"
    by (simp add: mem_defs failing_store_def store0_def)
  have b0: "BeginTxx mdb store0 = (Inr 0, ?open)"
    by (simp add: mem_defs store0_def)
  have i1: "insert_all mdb 0 [lamp_row] ?open = Some ?one"
    by (simp add: mem_defs store0_def lamp_row_def)
  have p1: "map (toDBThing compact_json) [lamp] = map Inr [lamp_row]"
    by (simp add: toDBThing_lamp)
  have dup: "TxNamedExecContext mdb 0 InsertThing lamp_row ?one = (Inl (PqError errDuplicate), ?one)"
    by (simp add: mem_defs store0_def lamp_row_def errDuplicate_def)
  have bad: "toDBThing compact_json (door\<lparr>ID := ''not-a-uuid''\<rparr>) =
               Inr (door_row\<lparr>dbID := ''not-a-uuid''\<rparr>)"
    by (simp add: toDBThing_def door_def door_row_def)
  have inv: "TxNamedExecContext mdb 0 InsertThing (door_row\<lparr>dbID := ''not-a-uuid''\<rparr>) ?one =
               (Inl (PqError errInvalid), ?one)"
    by (simp add: mem_defs store0_def door_row_def errInvalid_def)
  have a: "Save compact_json mdb (Slice [lamp, door]) failing_store =
     ((Slice [], Some (Wrap ErrCreateEntity (OtherError ''connection refused''))), store0)"
    by (rule Save_error_kinds
      [where js = compact_json and db = mdb and ths = "Slice [lamp, door]" and s = failing_store,
        THEN conjunct1, rule_format, OF bf])
  have b: "Save compact_json mdb (Slice [lamp, probe]) store0 =
     ((Slice [],
       Some (Wrap ErrCreateEntity
               (Wrap ErrMalformedEntity (OtherError ''json: unsupported type'')))),
      ?one)"
    using Save_error_kinds
      [where js = compact_json and db = mdb and ths = "Slice [lamp, probe]" and s = store0,
        THEN conjunct2, THEN conjunct1, rule_format,
        of 0 ?open "[lamp]" probe "[]" "[lamp_row]" ?one]
      b0 i1 p1 toDBThing_probe
    by simp
  have c: "fst (Save compact_json mdb (Slice [lamp, lamp]) store0) =
     (Slice [], Some (Wrap ErrConflict (PqError errDuplicate)))"
    using Save_error_kinds
      [where js = compact_json and db = mdb and ths = "Slice [lamp, lamp]" and s = store0,
        THEN conjunct2, THEN conjunct1, rule_format,
        of 0 ?open "[lamp]" lamp "[]" "[lamp_row]" ?one]
      b0 i1 p1 toDBThing_lamp dup
    by simp
  have d: "fst (Save compact_json mdb (Slice [lamp, door\<lparr>ID := ''not-a-uuid''\<rparr>]) store0) =
     (Slice [], Some (Wrap ErrMalformedEntity (PqError errInvalid)))"
    using Save_error_kinds
      [where js = compact_json and db = mdb
        and ths = "Slice [lamp, door\<lparr>ID := ''not-a-uuid''\<rparr>]" and s = store0,
        THEN conjunct2, THEN conjunct1, rule_format,
        of 0 ?open "[lamp]" "door\<lparr>ID := ''not-a-uuid''\<rparr>" "[]" "[lamp_row]" ?one]
      b0 i1 p1 bad inv
    by simp
  let ?flaky = "store0\<lparr>faults := [None, None, Some (OtherError ''connection reset'')]\<rparr>"
  have bc: "BeginTxx mdb ?flaky =
      (Inr 0, store0\<lparr>open_txs := [(0, [])], next_tx := 1,
                     faults := [None, Some (OtherError ''connection reset'')]\<rparr>)"
    by (simp add: mem_defs store0_def)
  have ic: "insert_all mdb 0 [lamp_row]
      (store0\<lparr>open_txs := [(0, [])], next_tx := 1,
              faults := [None, Some (OtherError ''connection reset'')]\<rparr>) =
      Some (store0\<lparr>open_txs := [(0, [lamp_row])], next_tx := 1,
                   faults := [Some (OtherError ''connection reset'')]\<rparr>)"
    by (simp add: mem_defs store0_def lamp_row_def)
  have cc: "TxCommit mdb 0
      (store0\<lparr>open_txs := [(0, [lamp_row])], next_tx := 1,
              faults := [Some (OtherError ''connection reset'')]\<rparr>) =
      (Some (OtherError ''connection reset''), store0\<lparr>next_tx := 1\<rparr>)"
    by (simp add: mem_defs store0_def)
  have e: "Save compact_json mdb (Slice [lamp]) ?flaky =
     ((Slice [], Some (Wrap ErrCreateEntity (OtherError ''connection reset''))),
      store0\<lparr>next_tx := 1\<rparr>)"
    using Save_error_kinds
      [where js = compact_json and db = mdb and ths = "Slice [lamp]" and s = ?flaky,
        THEN conjunct2, THEN conjunct2, THEN conjunct1, rule_format,
        of 0 _ "[lamp_row]" _ "OtherError ''connection reset''" "store0\<lparr>next_tx := 1\<rparr>"]
      bc ic cc p1
    by simp
  from a b c d e show ?thesis by blast
qed

lemma Save_failure_slice:
  "Save js db ths s = ((r, Some e), s') \<Longrightarrow> r = Slice []"
  by (auto simp: Save_def split: prod.splits sum.splits option.splits)

lemma Save_success:
  assumes "Save js db ths s = ((r, None), s')"
  shows "r = ths \<and>
     (\<exists>tx s0 rows s1. BeginTxx db s = (Inr tx, s0) \<and>
        map (toDBThing js) (elems ths) = map Inr rows \<and>
        insert_all db tx rows s0 = Some s1 \<and> TxCommit db tx s1 = (None, s'))"
proof -
  obtain x s0 where b: "BeginTxx db s = (x, s0)" by (cases "BeginTxx db s")
  from assms b obtain tx where tx: "x = Inr tx"
    by (cases x) (auto simp: Save_def)
  obtain y s1 where lp: "Save_loop js db tx (elems ths) s0 = (y, s1)"
    by (cases "Save_loop js db tx (elems ths) s0")
  from assms b tx lp have y: "y = None"
    by (cases y) (auto simp: Save_def)
  from Save_loop_success [OF lp [unfolded y]] obtain rows where
    rows: "map (toDBThing js) (elems ths) = map Inr rows" "insert_all db tx rows s0 = Some s1"
    by blast
  obtain z s2 where c: "TxCommit db tx s1 = (z, s2)" by (cases "TxCommit db tx s1")
  from assms b tx lp y c have "z = None" "s2 = s'" "r = ths"
    by (auto simp: Save_def split: option.splits)
  with b tx rows c show ?thesis by blast
qed

lemma take_fault_fields:
  "take_fault s = (f, s1) \<Longrightarrow>
     things_table s1 = things_table s \<and> open_txs s1 = open_txs s \<and> next_tx s1 = next_tx s \<and>
     count_err s1 = count_err s \<and> max_name s1 = max_name s \<and> max_key s1 = max_key s"
  by (auto simp: take_fault_def split: list.splits)

lemma mem_insert_ok:
  assumes "mem_TxNamedExecContext tx InsertThing d s = (Inr res, s1)"
    and "map_of (open_txs s) tx = Some w"
  shows "map_of (open_txs s1) tx = Some (w @ [d]) \<and> things_table s1 = things_table s"
proof -
  obtain f sf where tf: "take_fault s = (f, sf)" by (cases "take_fault s")
  from take_fault_fields [OF tf] assms(2)
  have m: "map_of (open_txs sf) tx = Some w" "things_table sf = things_table s" by simp_all
  from assms(1) tf m show ?thesis
    by (auto simp: mem_TxNamedExecContext_def split: option.splits sum.splits if_splits)
qed

lemma insert_all_mem:
  "map_of (open_txs s) tx = Some w \<Longrightarrow> insert_all (memdb l) tx rows s = Some s1 \<Longrightarrow>
     map_of (open_txs s1) tx = Some (w @ rows) \<and> things_table s1 = things_table s"
proof (induction rows arbitrary: s w)
  case Nil
  then show ?case by simp
next
  case (Cons d rows)
  obtain x s2 where ex: "mem_TxNamedExecContext tx InsertThing d s = (x, s2)"
    by (cases "mem_TxNamedExecContext tx InsertThing d s")
  from Cons.prems(2) ex obtain res where res: "x = Inr res"
    by (cases x) (auto simp: memdb_def)
  from Cons.prems(2) ex res have rest: "insert_all (memdb l) tx rows s2 = Some s1"
    by (simp add: memdb_def)
  from mem_insert_ok [OF ex [unfolded res] Cons.prems(1)]
  have m: "map_of (open_txs s2) tx = Some (w @ [d])" "things_table s2 = things_table s"
    by simp_all
  from Cons.IH [OF m(1) rest] m(2) show ?case by simp
qed

lemma mem_commit_table:
  assumes "BeginTxx (memdb l) m = (Inr tx, s0)"
    and "insert_all (memdb l) tx rows s0 = Some s1"
    and "TxCommit (memdb l) tx s1 = (None, m')"
  shows "things_table m' = things_table m @ rows"
proof -
  obtain f sf where tf: "take_fault m = (f, sf)" by (cases "take_fault m")
  from assms(1) tf take_fault_fields [OF tf]
  have s0: "map_of (open_txs s0) tx = Some (things_table m)"
    by (auto simp: memdb_def mem_BeginTxx_def split: option.splits)
  from insert_all_mem [OF s0 assms(2)]
  have s1: "map_of (open_txs s1) tx = Some (things_table m @ rows)" by simp
  obtain g sg where tg: "take_fault s1 = (g, sg)" by (cases "take_fault s1")
  from assms(3) tg s1 take_fault_fields [OF tg] show ?thesis
    by (auto simp: memdb_def mem_TxCommit_def close_tx_def split: option.splits)
qed

lemma Save_failure_gives_empty:
  assumes "(\<exists>c s0. BeginTxx db s = (Inl c, s0)) \<or>
     (\<exists>tx s0 pre t post rows s1.
        BeginTxx db s = (Inr tx, s0) \<and> elems ths = pre @ t # post \<and>
        map (toDBThing js) pre = map Inr rows \<and> insert_all db tx rows s0 = Some s1 \<and>
        ((\<exists>c. toDBThing js t = Inl c) \<or>
         (\<exists>d c s2. toDBThing js t = Inr d \<and>
            TxNamedExecContext db tx InsertThing d s1 = (Inl c, s2)))) \<or>
     (\<exists>tx s0 rows s1 c s2.
        BeginTxx db s = (Inr tx, s0) \<and> map (toDBThing js) (elems ths) = map Inr rows \<and>
        insert_all db tx rows s0 = Some s1 \<and> TxCommit db tx s1 = (Some c, s2))"
  shows "\<exists>e. fst (Save js db ths s) = (Slice [], Some e)"
  using assms
proof (elim disjE exE conjE)
  fix c s0 assume "BeginTxx db s = (Inl c, s0)"
  from Save_begin_failure [OF this, of js ths] show ?thesis by simp
next
  fix tx s0 pre t post rows s1 c
  assume "BeginTxx db s = (Inr tx, s0)" "elems ths = pre @ t # post"
    "map (toDBThing js) pre = map Inr rows" "insert_all db tx rows s0 = Some s1"
    "toDBThing js t = Inl c"
  from Save_encode_failure [OF this] show ?thesis by simp
next
  fix tx s0 pre t post rows s1 d c s2
  assume "BeginTxx db s = (Inr tx, s0)" "elems ths = pre @ t # post"
    "map (toDBThing js) pre = map Inr rows" "insert_all db tx rows s0 = Some s1"
    "toDBThing js t = Inr d" "TxNamedExecContext db tx InsertThing d s1 = (Inl c, s2)"
  from Save_insert_failure [OF this] show ?thesis by simp
next
  fix tx s0 rows s1 c s2
  assume "BeginTxx db s = (Inr tx, s0)" "map (toDBThing js) (elems ths) = map Inr rows"
    "insert_all db tx rows s0 = Some s1" "TxCommit db tx s1 = (Some c, s2)"
  from Save_commit_failure [OF this] show ?thesis by simp
qed

lemma Save_committed:
  assumes "BeginTxx db s = (Inr tx, s0)" "map (toDBThing js) (elems ths) = map Inr rows"
    "insert_all db tx rows s0 = Some s1" "TxCommit db tx s1 = (None, s2)"
  shows "Save js db ths s = ((ths, None), s2)"
  using Save_loop_all_inserted [OF assms(2,3)] assms(1,4) by (simp add: Save_def)

text \<open>
  C9. Whatever the store, every failure path of \<open>Save\<close> returns the empty slice
  \<^verbatim>\<open>[]things.Thing{}\<close> beside an error: when the transaction cannot be begun; when, the
  Things before it encoded and inserted, a Thing cannot be encoded or the store refuses
  its insert; and when, every Thing inserted, the commit fails. A call that returns an
  error returns with it the empty slice: not nil, and no Thing of the call. A call that
  returns a slice with an element in it has returned no error and the slice it was
  given, after the store began a transaction, ran in it the inserts of the rows of all
  the Things of the call, in their order and each without error, and committed it without
  error; and a call that does all that returns the slice it was given and no error. On
  the in-memory store the table of committed rows has then grown by these rows.
\<close>

theorem Save_failure_returns_empty:
  "((\<exists>c s0. BeginTxx db s = (Inl c, s0)) \<or>
    (\<exists>tx s0 pre t post rows s1.
       BeginTxx db s = (Inr tx, s0) \<and> elems ths = pre @ t # post \<and>
       map (toDBThing js) pre = map Inr rows \<and> insert_all db tx rows s0 = Some s1 \<and>
       ((\<exists>c. toDBThing js t = Inl c) \<or>
        (\<exists>d c s2. toDBThing js t = Inr d \<and>
           TxNamedExecContext db tx InsertThing d s1 = (Inl c, s2)))) \<or>
    (\<exists>tx s0 rows s1 c s2.
       BeginTxx db s = (Inr tx, s0) \<and> map (toDBThing js) (elems ths) = map Inr rows \<and>
       insert_all db tx rows s0 = Some s1 \<and> TxCommit db tx s1 = (Some c, s2)) \<longrightarrow>
      (\<exists>e. fst (Save js db ths s) = (Slice [], Some e))) \<and>
   (\<forall>tx s0 rows s1 s2.
      BeginTxx db s = (Inr tx, s0) \<and> map (toDBThing js) (elems ths) = map Inr rows \<and>
      insert_all db tx rows s0 = Some s1 \<and> TxCommit db tx s1 = (None, s2) \<longrightarrow>
        Save js db ths s = ((ths, None), s2)) \<and>
   (Save js db ths s = ((r, Some e), s') \<longrightarrow> r = Slice [] \<and> r \<noteq> NilSlice) \<and>
   (Save js' db' ths' sa = ((r', e'), sb) \<and> elems r' \<noteq> [] \<longrightarrow>
      e' = None \<and> r' = ths' \<and>
      (\<exists>tx s0 rows s1. BeginTxx db' sa = (Inr tx, s0) \<and>
         map (toDBThing js') (elems ths') = map Inr rows \<and>
         insert_all db' tx rows s0 = Some s1 \<and> TxCommit db' tx s1 = (None, sb))) \<and>
   (Save js'' (memdb l) ths'' m = ((r'', e''), m') \<and> elems r'' \<noteq> [] \<longrightarrow>
      (\<exists>rows. map (toDBThing js'') (elems ths'') = map Inr rows \<and>
         things_table m' = things_table m @ rows))"
proof (intro conjI impI allI)
  assume "(\<exists>c s0. BeginTxx db s = (Inl c, s0)) \<or>
    (\<exists>tx s0 pre t post rows s1.
       BeginTxx db s = (Inr tx, s0) \<and> elems ths = pre @ t # post \<and>
       map (toDBThing js) pre = map Inr rows \<and> insert_all db tx rows s0 = Some s1 \<and>
       ((\<exists>c. toDBThing js t = Inl c) \<or>
        (\<exists>d c s2. toDBThing js t = Inr d \<and>
           TxNamedExecContext db tx InsertThing d s1 = (Inl c, s2)))) \<or>
    (\<exists>tx s0 rows s1 c s2.
       BeginTxx db s = (Inr tx, s0) \<and> map (toDBThing js) (elems ths) = map Inr rows \<and>
       insert_all db tx rows s0 = Some s1 \<and> TxCommit db tx s1 = (Some c, s2))"
  then show "\<exists>e. fst (Save js db ths s) = (Slice [], Some e)"
    by (rule Save_failure_gives_empty)
next
  fix tx s0 rows s1 s2
  assume "BeginTxx db s = (Inr tx, s0) \<and> map (toDBThing js) (elems ths) = map Inr rows \<and>
      insert_all db tx rows s0 = Some s1 \<and> TxCommit db tx s1 = (None, s2)"
  then show "Save js db ths s = ((ths, None), s2)"
    by (intro Save_committed [of db s tx s0 js ths rows s1 s2]) simp_all
next
  assume "Save js db ths s = ((r, Some e), s')"
  then show "r = Slice []" by (rule Save_failure_slice)
  then show "r \<noteq> NilSlice" by simp
next
  assume a: "Save js' db' ths' sa = ((r', e'), sb) \<and> elems r' \<noteq> []"
  show e: "e' = None"
  proof (cases e')
    case (Some x)
    with a Save_failure_slice [of js' db' ths' sa r' x sb] show ?thesis by simp
  qed simp
  from a e Save_success [of js' db' ths' sa r' sb]
  show "r' = ths'"
    and "\<exists>tx s0 rows s1. BeginTxx db' sa = (Inr tx, s0) \<and>
         map (toDBThing js') (elems ths') = map Inr rows \<and>
         insert_all db' tx rows s0 = Some s1 \<and> TxCommit db' tx s1 = (None, sb)"
    by simp_all
next
  assume a: "Save js'' (memdb l) ths'' m = ((r'', e''), m') \<and> elems r'' \<noteq> []"
  have e: "e'' = None"
  proof (cases e'')
    case (Some x)
    with a Save_failure_slice [of js'' "memdb l" ths'' m r'' x m'] show ?thesis by simp
  qed simp
  from a e Save_success [of js'' "memdb l" ths'' m r'' m'] obtain tx s0 rows s1 where
    "BeginTxx (memdb l) m = (Inr tx, s0)"
    "map (toDBThing js'') (elems ths'') = map Inr rows"
    "insert_all (memdb l) tx rows s0 = Some s1" "TxCommit (memdb l) tx s1 = (None, m')"
    by auto
  with mem_commit_table [of l m tx s0 rows s1 m']
  show "\<exists>rows. map (toDBThing js'') (elems ths'') = map Inr rows \<and>
         things_table m' = things_table m @ rows"
    by blast
qed

theorem Save_failure_returns_empty_witness:
  "BeginTxx mdb failing_store = (Inl (OtherError ''connection refused''), store0) \<and>
   (\<exists>e. fst (Save compact_json mdb (Slice [lamp, door]) failing_store) = (Slice [], Some e)) \<and>
   Save compact_json mdb (Slice [lamp, lamp]) store0 =
     ((Slice [], Some (Wrap ErrConflict (PqError ''unique_violation''))),
      store0\<lparr>next_tx := 1\<rparr>) \<and>
   Save compact_json mdb (Slice [lamp, door]) store0 =
     ((Slice [lamp, door], None),
      store0\<lparr>things_table := [lamp_row, door_row], next_tx := 1\<rparr>) \<and>
   elems (Slice [lamp, door]) \<noteq> [] \<and>
   map (toDBThing compact_json) [lamp, door] = map Inr [lamp_row, door_row]"
proof -
  have bf: "BeginTxx mdb failing_store = (Inl (OtherError ''connection refused''), store0)"
    by (simp add: mem_defs failing_store_def store0_def)
  have a: "Save compact_json mdb (Slice [lamp, lamp]) store0 =
     ((Slice [], Some (Wrap ErrConflict (PqError ''unique_violation''))),
      store0\<lparr>next_tx := 1\<rparr>)"
    by (simp add: Save_def toDBThing_lamp mem_defs store0_def lamp_row_def errDuplicate_def
          errInvalid_def errTruncation_def)
  have b: "Save compact_json (memdb owner_listing) (Slice [lamp, door]) store0 =
     ((Slice [lamp, door], None),
      store0\<lparr>things_table := [lamp_row, door_row], next_tx := 1\<rparr>)"
    by (simp add: Save_def toDBThing_lamp toDBThing_door mem_defs [unfolded mdb_def] store0_def
          lamp_row_def door_row_def)
  have c: "elems (Slice [lamp, door]) \<noteq> []" by simp
  have d: "map (toDBThing compact_json) [lamp, door] = map Inr [lamp_row, door_row]"
    by (simp add: toDBThing_lamp toDBThing_door)
  note t = Save_failure_returns_empty
    [where js = compact_json and db = mdb and ths = "Slice [lamp, door]" and s = failing_store
      and r = "Slice []" and e = "Wrap ErrConflict (PqError ''unique_violation'')"
      and s' = "store0\<lparr>next_tx := 1\<rparr>"
      and js' = compact_json and db' = "memdb owner_listing"
      and ths' = "Slice [lamp, door]" and sa = store0 and r' = "Slice [lamp, door]"
      and e' = None
      and sb = "store0\<lparr>things_table := [lamp_row, door_row], next_tx := 1\<rparr>"
      and js'' = compact_json and l = owner_listing
      and ths'' = "Slice [lamp, door]" and m = store0 and r'' = "Slice [lamp, door]"
      and e'' = None
      and m' = "store0\<lparr>things_table := [lamp_row, door_row], next_tx := 1\<rparr>"]
  from t [THEN conjunct1] bf
  have f: "\<exists>e. fst (Save compact_json mdb (Slice [lamp, door]) failing_store) = (Slice [], Some e)"
    by blast
  from bf f a b c d show ?thesis by (simp add: mdb_def)
qed

text \<open>
  C1. \<open>Save\<close> of two Things, the second with a metadata value that \<^verbatim>\<open>json.Marshal\<close> cannot
  encode: the call returns \<open>ErrCreateEntity\<close> from line 51 without the \<^verbatim>\<open>tx.Rollback()\<close>
  of line 55. The committed table is unchanged, and the transaction stays open in the
  store with the row of the first Thing inserted in it: neither committed nor rolled back.
\<close>

theorem Save_encode_failure_leaves_transaction_open:
  "Save compact_json mdb (Slice [lamp, probe]) store0 =
     ((Slice [],
       Some (Wrap ErrCreateEntity
               (Wrap ErrMalformedEntity (OtherError ''json: unsupported type'')))),
      store0\<lparr>open_txs := [(0, [lamp_row])], next_tx := 1\<rparr>)"
  by (simp add: Save_def toDBThing_lamp toDBThing_probe mem_defs store0_def lamp_row_def)

section \<open>Update and UpdateKey\<close>

text \<open>
  C3. \<open>UpdateKey\<close> with a key wider than its column, on a store that holds the Thing: the
  store reports \<^verbatim>\<open>string_data_right_truncation\<close> and \<open>UpdateKey\<close> returns \<open>ErrUpdateEntity\<close>,
  where \<open>Save\<close> returns \<open>ErrMalformedEntity\<close> for the same key and the same report.
\<close>

theorem UpdateKey_truncation_is_UpdateEntity:
  "fst (UpdateKey mdb ''alice'' ''0a1b2c3d-0000-4000-8000-00000000000a'' ''a-longer-key''
          narrow_store) =
     Some (Wrap ErrUpdateEntity (PqError ''string_data_right_truncation'')) \<and>
   snd (fst (Save compact_json mdb (Slice [door\<lparr>Key := ''a-longer-key''\<rparr>]) narrow_store)) =
     Some (Wrap ErrMalformedEntity (PqError ''string_data_right_truncation''))"
  by (simp add: UpdateKey_def Save_def toDBThing_def door_def mem_defs narrow_store_def
        store0_def lamp_row_def errInvalid_def errDuplicate_def errTruncation_def)

text \<open>
  C4. \<open>Update\<close> of a Thing the store holds, through a driver that cannot report the
  affected rows: the row is updated, \<^verbatim>\<open>RowsAffected\<close> returns an error, line 99 tests the
  nil \<open>err\<close> of line 80, and \<open>Update\<close> returns the bare \<open>ErrNotFound\<close>.
\<close>

theorem Update_ignores_RowsAffected_error:
  "Update compact_json mdb (lamp\<lparr>Name := ''lantern''\<rparr>) countless_store =
     (Some (Sentinel ErrNotFound),
      countless_store\<lparr>things_table := [lamp_row\<lparr>dbName := ''lantern''\<rparr>]\<rparr>)"
  by (simp add: Update_def toDBThing_def RowsAffected_def lamp_def codec_defs mem_defs
        countless_store_def store0_def lamp_row_def)

section \<open>RetrieveByID\<close>

text \<open>
  C5, as claimed, fails. With an id that is no identifier, \<open>RetrieveByID\<close> returns
  \<open>ErrNotFound\<close> around the store's own \<^verbatim>\<open>invalid_text_representation\<close>: the store was
  queried and raised its type error. With the same id and a store that has lost its
  connection it returns \<open>ErrSelectEntity\<close>, so the id is not looked at before the query.
  And a row whose metadata cannot be decoded makes it return \<open>ErrMalformedEntity\<close>, which
  is neither \<open>ErrNotFound\<close> nor \<open>ErrSelectEntity\<close>.
\<close>

theorem RetrieveByID_malformed_id_reaches_store:
  "\<not> valid_uuid ''not-a-uuid'' \<and>
   RetrieveByID compact_json mdb ''alice'' ''not-a-uuid'' store0 =
     (Inl (Wrap ErrNotFound (PqError ''invalid_text_representation'')), store0) \<and>
   RetrieveByID compact_json mdb ''alice'' ''not-a-uuid'' failing_store =
     (Inl (Wrap ErrSelectEntity (OtherError ''connection refused'')), store0) \<and>
   RetrieveByID compact_json mdb ''alice'' ''0a1b2c3d-0000-4000-8000-00000000000a'' torn_store =
     (Inl (Wrap ErrMalformedEntity (OtherError ''json: invalid input'')), torn_store)"
  by (simp add: RetrieveByID_def toThing_def codec_defs mem_defs store0_def failing_store_def
        torn_store_def lamp_row_def errInvalid_def)

text \<open>
  C5, amended. For every owner and id, \<open>RetrieveByID\<close> queries the store with the id and
  the owner as they are, and leaves the store as the query leaves it. When the query
  fails, it returns \<open>ErrNotFound\<close> if the store reports no row (\<^verbatim>\<open>sql.ErrNoRows\<close>) or
  \<^verbatim>\<open>invalid_text_representation\<close> (its type error for an id that is not well-formed), and
  \<open>ErrSelectEntity\<close> for any other error, each around the store's error. When the query
  returns a row whose metadata decodes, the result is the Thing with the given ID and
  Owner, the Name and Key of the row and the decoded metadata.
\<close>

theorem RetrieveByID_outcomes:
  assumes "RetrieveByID js db owner id' s = (r, s')"
  shows "s' = snd (QueryRowxContext db SelectThingByID id' owner s) \<and>
     (\<forall>c. fst (QueryRowxContext db SelectThingByID id' owner s) = Inl c \<longrightarrow>
        r = Inl (Wrap (if c = SqlErrNoRows \<or> c = PqError errInvalid then ErrNotFound
                       else ErrSelectEntity) c)) \<and>
     (\<forall>name key md. fst (QueryRowxContext db SelectThingByID id' owner s) = Inr (name, key, md) \<longrightarrow>
        (\<forall>m. Unmarshal js md = Inr m \<longrightarrow>
           r = Inr \<lparr>ID = id', Owner = owner, Name = name, Key = key, Metadata = m\<rparr>))"
proof -
  obtain x s1 where q: "QueryRowxContext db SelectThingByID id' owner s = (x, s1)"
    by (cases "QueryRowxContext db SelectThingByID id' owner s")
  show ?thesis
  proof (cases x)
    case (Inl c)
    with assms q show ?thesis by (auto simp: RetrieveByID_def split: if_splits)
  next
    case (Inr row)
    obtain name key md where row: "row = (name, key, md)" by (cases row)
    with assms q Inr show ?thesis
      by (auto simp: RetrieveByID_def toThing_def Let_def split: sum.splits)
  qed
qed

theorem RetrieveByID_outcomes_witness:
  \<open>RetrieveByID compact_json mdb ''alice'' ''0a1b2c3d-0000-4000-8000-00000000000a'' lamp_store =
     (Inr lamp, lamp_store) \<and>
   fst (QueryRowxContext mdb SelectThingByID ''0a1b2c3d-0000-4000-8000-00000000000a'' ''alice''
          lamp_store) = Inr (''lamp'', ''key-a'', ''{"region":"eu"}'') \<and>
   Unmarshal compact_json ''{"region":"eu"}'' = Inr (Some [(''region'', JString ''eu'')]) \<and>
   fst (QueryRowxContext mdb SelectThingByID ''0a1b2c3d-0000-4000-8000-00000000000b'' ''alice''
          lamp_store) = Inl SqlErrNoRows \<and>
   fst (RetrieveByID compact_json mdb ''alice'' ''0a1b2c3d-0000-4000-8000-00000000000b''
          lamp_store) = Inl (Wrap ErrNotFound SqlErrNoRows)\<close>
proof -
  have a: \<open>RetrieveByID compact_json mdb ''alice'' ''0a1b2c3d-0000-4000-8000-00000000000a''
             lamp_store = (Inr lamp, lamp_store)\<close>
    by (simp add: RetrieveByID_def toThing_def codec_defs mem_defs store0_def lamp_store_def
          lamp_row_def lamp_def)
  have b: \<open>fst (QueryRowxContext mdb SelectThingByID ''0a1b2c3d-0000-4000-8000-00000000000a''
             ''alice'' lamp_store) = Inr (''lamp'', ''key-a'', ''{"region":"eu"}'')\<close>
    by (simp add: mem_defs store0_def lamp_store_def lamp_row_def)
  have c: \<open>Unmarshal compact_json ''{"region":"eu"}'' = Inr (Some [(''region'', JString ''eu'')])\<close>
    by (simp add: codec_defs)
  have d: \<open>fst (QueryRowxContext mdb SelectThingByID ''0a1b2c3d-0000-4000-8000-00000000000b''
             ''alice'' lamp_store) = Inl SqlErrNoRows\<close>
    by (simp add: mem_defs store0_def lamp_store_def lamp_row_def)
  obtain r s' where e: \<open>RetrieveByID compact_json mdb ''alice''
      ''0a1b2c3d-0000-4000-8000-00000000000b'' lamp_store = (r, s')\<close>
    by (cases \<open>RetrieveByID compact_json mdb ''alice''
      ''0a1b2c3d-0000-4000-8000-00000000000b'' lamp_store\<close>)
  from RetrieveByID_outcomes [OF e] d have "r = Inl (Wrap ErrNotFound SqlErrNoRows)"
    by simp
  with e have f: \<open>fst (RetrieveByID compact_json mdb ''alice''
      ''0a1b2c3d-0000-4000-8000-00000000000b'' lamp_store) = Inl (Wrap ErrNotFound SqlErrNoRows)\<close>
    by simp
  from a b c d f show ?thesis by blast
qed

section \<open>RetrieveAll\<close>

lemma RetrieveAll_loop_error:
  "RetrieveAll_loop js owner rows items = Inl e \<Longrightarrow>
     (\<exists>c. Inl c \<in> set rows \<and> e = Wrap ErrSelectEntity c) \<or>
     (\<exists>i n k md c. Inr (i, n, k, md) \<in> set rows \<and> Unmarshal js md = Inl c \<and>
        e = Wrap ErrViewEntity (Wrap ErrMalformedEntity c))"
proof (induction rows arbitrary: items)
  case Nil
  then show ?case by simp
next
  case (Cons row rows)
  show ?case
  proof (cases row)
    case (Inl c)
    with Cons.prems show ?thesis by auto
  next
    case (Inr cols)
    obtain i n k md where cols: "cols = (i, n, k, md)" by (cases cols)
    show ?thesis
    proof (cases "Unmarshal js md")
      case (Inl c)
      with Cons.prems Inr cols have "e = Wrap ErrViewEntity (Wrap ErrMalformedEntity c)"
        by (simp add: toThing_def)
      with Inl Inr cols have "\<exists>i n k md c. Inr (i, n, k, md) \<in> set (row # rows) \<and>
          Unmarshal js md = Inl c \<and> e = Wrap ErrViewEntity (Wrap ErrMalformedEntity c)"
        by (intro exI [of _ i] exI [of _ n] exI [of _ k] exI [of _ md] exI [of _ c]) simp
      then show ?thesis by blast
    next
      case (Inr m)
      with Cons.prems \<open>row = Inr cols\<close> cols obtain th where
        "RetrieveAll_loop js owner rows (append_slice items th) = Inl e"
        by (auto simp: toThing_def)
      from Cons.IH [OF this] show ?thesis unfolding list.set(2) by blast
    qed
  qed
qed

text \<open>
  C6, as claimed, fails: a row of the page whose stored metadata cannot be decoded makes
  \<open>RetrieveAll\<close> return \<open>ErrViewEntity\<close> (line 212), not \<open>ErrSelectEntity\<close>.
\<close>

theorem RetrieveAll_decode_failure_is_ViewEntity:
  "RetrieveAll compact_json (sample_helpers compact_json) mdb ''alice'' 0 10 [] None torn_store =
     (Inl (Wrap ErrViewEntity (Wrap ErrMalformedEntity (OtherError ''json: invalid input''))),
      torn_store) \<and>
   kind_of (Wrap ErrViewEntity (Wrap ErrMalformedEntity (OtherError ''json: invalid input''))) \<noteq>
     Some ErrSelectEntity"
  by (simp add: RetrieveAll_def sample_helpers_def toThing_def owner_listing_def codec_defs
        mem_defs store0_def torn_store_def lamp_row_def)

lemma RetrieveAll_error_causes:
  assumes "RetrieveAll js hp db owner offset limit name tm s = (Inl e, s')"
  shows "(\<exists>c. getMetadataQuery hp tm = Inl c \<and> e = Wrap ErrSelectEntity c) \<or>
     (\<exists>m mq ps. getMetadataQuery hp tm = Inr (m, mq) \<and>
        ps = \<lparr>p_owner = owner, p_limit = limit, p_offset = offset,
              p_name = snd (getNameQuery hp name), p_metadata = m\<rparr> \<and>
        ((\<exists>c. fst (NamedQueryContext db (SelectThings mq (fst (getNameQuery hp name))) ps s) = Inl c \<and>
            e = Wrap ErrSelectEntity c) \<or>
         (\<exists>rows. fst (NamedQueryContext db (SelectThings mq (fst (getNameQuery hp name))) ps s) = Inr rows \<and>
            ((\<exists>c. Inl c \<in> set rows \<and> e = Wrap ErrSelectEntity c) \<or>
             (\<exists>i n k md c. Inr (i, n, k, md) \<in> set rows \<and> Unmarshal js md = Inl c \<and>
                e = Wrap ErrViewEntity (Wrap ErrMalformedEntity c)) \<or>
             (\<exists>c. fst (total hp db (CountThings (fst (getNameQuery hp name)) mq) ps
                          (snd (NamedQueryContext db
                                  (SelectThings mq (fst (getNameQuery hp name))) ps s))) = Inl c \<and>
                e = Wrap ErrSelectEntity c)))))"
proof (cases "getMetadataQuery hp tm")
  case (Inl c)
  with assms show ?thesis by (simp add: RetrieveAll_def split: prod.splits)
next
  case (Inr mm)
  obtain m mq where mm: "mm = (m, mq)" by (cases mm)
  obtain nq nm where nmq: "getNameQuery hp name = (nq, nm)" by (cases "getNameQuery hp name")
  define ps where "ps = \<lparr>p_owner = owner, p_limit = limit, p_offset = offset,
              p_name = nm, p_metadata = m\<rparr>"
  obtain x s1 where q: "NamedQueryContext db (SelectThings mq nq) ps s = (x, s1)"
    by (cases "NamedQueryContext db (SelectThings mq nq) ps s")
  have "(\<exists>c. x = Inl c \<and> e = Wrap ErrSelectEntity c) \<or>
         (\<exists>rows. x = Inr rows \<and>
            ((\<exists>c. Inl c \<in> set rows \<and> e = Wrap ErrSelectEntity c) \<or>
             (\<exists>i n k md c. Inr (i, n, k, md) \<in> set rows \<and> Unmarshal js md = Inl c \<and>
                e = Wrap ErrViewEntity (Wrap ErrMalformedEntity c)) \<or>
             (\<exists>c. fst (total hp db (CountThings nq mq) ps s1) = Inl c \<and>
                e = Wrap ErrSelectEntity c)))"
  proof (cases x)
    case (Inl c)
    with assms Inr mm nmq q show ?thesis by (simp add: RetrieveAll_def ps_def)
  next
    case rows: (Inr rows)
    show ?thesis
    proof (cases "RetrieveAll_loop js owner rows NilSlice")
      case (Inl e')
      with assms Inr mm nmq q rows have "e' = e" by (simp add: RetrieveAll_def ps_def)
      with Inl RetrieveAll_loop_error [of js owner rows NilSlice e] rows show ?thesis
        by blast
    next
      case items: (Inr items)
      obtain y s2 where t: "total hp db (CountThings nq mq) ps s1 = (y, s2)"
        by (cases "total hp db (CountThings nq mq) ps s1")
      with assms Inr mm nmq q rows items obtain c where "y = Inl c" "e = Wrap ErrSelectEntity c"
        by (cases y) (auto simp: RetrieveAll_def ps_def)
      with t rows show ?thesis by simp
    qed
  qed
  with Inr mm nmq q ps_def show ?thesis by simp
qed

lemma RetrieveAll_loop_prefix:
  "list_all (row_decodes js) pre \<Longrightarrow>
     \<exists>items'. RetrieveAll_loop js owner (pre @ rest) items =
                RetrieveAll_loop js owner rest items'"
proof (induction pre arbitrary: items)
  case Nil
  show ?case by (intro exI [of _ items]) simp
next
  case (Cons row pre)
  from Cons.prems have rd: "row_decodes js row" and pre: "list_all (row_decodes js) pre"
    by simp_all
  from rd obtain cols where cols: "row = Inr cols"
    by (cases row) (simp_all add: row_decodes_def)
  obtain i n k md where c4: "cols = (i, n, k, md)" by (cases cols)
  from rd cols c4 obtain m where m: "Unmarshal js md = Inr m"
    by (cases "Unmarshal js md") (simp_all add: row_decodes_def)
  from cols c4 m have row: "row = Inr (i, n, k, md)" "Unmarshal js md = Inr m" by simp_all
  from row obtain th where th: "toThing js
      \<lparr>dbID = i, dbOwner = owner, dbName = n, dbKey = k, dbMetadata = md\<rparr> = Inr th"
    by (simp add: toThing_def)
  from Cons.IH [OF pre, of "append_slice items th"] row(1) th show ?case by simp
qed

lemma RetrieveAll_loop_scan_failure:
  assumes "rows = pre @ Inl c # post" "list_all (row_decodes js) pre"
  shows "RetrieveAll_loop js owner rows items = Inl (Wrap ErrSelectEntity c)"
proof -
  from RetrieveAll_loop_prefix [OF assms(2), of owner "Inl c # post" items] assms(1)
  show ?thesis by auto
qed

lemma RetrieveAll_loop_decode_failure:
  assumes "rows = pre @ Inr (i, n, k, md) # post" "list_all (row_decodes js) pre"
    "Unmarshal js md = Inl c"
  shows "RetrieveAll_loop js owner rows items =
           Inl (Wrap ErrViewEntity (Wrap ErrMalformedEntity c))"
proof -
  from RetrieveAll_loop_prefix [OF assms(2), of owner "Inr (i, n, k, md) # post" items]
    assms(1,3)
  show ?thesis by (auto simp: toThing_def)
qed

lemma RetrieveAll_loop_all_decode:
  assumes "list_all (row_decodes js) rows"
  shows "\<exists>items'. RetrieveAll_loop js owner rows items = Inr items'"
  using RetrieveAll_loop_prefix [OF assms, of owner "[]" items] by simp

text \<open>
  C6, amended. For every call of \<open>RetrieveAll\<close>, on every store, the first failure is
  returned around its cause: with \<open>ErrSelectEntity\<close> when the metadata filter cannot be
  encoded, when the page query fails, when a row of the page fails to scan, the rows
  before it scanned and decoded, and when, every row of the page scanned and decoded, the
  count query fails; with \<open>ErrViewEntity\<close>, around the \<open>ErrMalformedEntity\<close> of \<open>toThing\<close>,
  when the stored metadata of a row fails to decode, the rows before it scanned and
  decoded. And an error that \<open>RetrieveAll\<close> returns comes from one of these failures.
\<close>

theorem RetrieveAll_error_kinds:
  "(\<forall>c. getMetadataQuery hp tm = Inl c \<longrightarrow>
      RetrieveAll js hp db owner offset limit name tm s = (Inl (Wrap ErrSelectEntity c), s)) \<and>
   (\<forall>m mq nq nm ps.
      getMetadataQuery hp tm = Inr (m, mq) \<and> getNameQuery hp name = (nq, nm) \<and>
      ps = \<lparr>p_owner = owner, p_limit = limit, p_offset = offset, p_name = nm,
            p_metadata = m\<rparr> \<longrightarrow>
        (\<forall>c s1. NamedQueryContext db (SelectThings mq nq) ps s = (Inl c, s1) \<longrightarrow>
           RetrieveAll js hp db owner offset limit name tm s =
             (Inl (Wrap ErrSelectEntity c), s1)) \<and>
        (\<forall>rows s1. NamedQueryContext db (SelectThings mq nq) ps s = (Inr rows, s1) \<longrightarrow>
           (\<forall>pre c post. rows = pre @ Inl c # post \<and> list_all (row_decodes js) pre \<longrightarrow>
              RetrieveAll js hp db owner offset limit name tm s =
                (Inl (Wrap ErrSelectEntity c), s1)) \<and>
           (\<forall>pre i n k md post c.
              rows = pre @ Inr (i, n, k, md) # post \<and> list_all (row_decodes js) pre \<and>
              Unmarshal js md = Inl c \<longrightarrow>
              RetrieveAll js hp db owner offset limit name tm s =
                (Inl (Wrap ErrViewEntity (Wrap ErrMalformedEntity c)), s1)) \<and>
           (\<forall>c s2. list_all (row_decodes js) rows \<and>
              total hp db (CountThings nq mq) ps s1 = (Inl c, s2) \<longrightarrow>
              RetrieveAll js hp db owner offset limit name tm s =
                (Inl (Wrap ErrSelectEntity c), s2)))) \<and>
   (\<forall>e s'. RetrieveAll js hp db owner offset limit name tm s = (Inl e, s') \<longrightarrow>
     (\<exists>c. getMetadataQuery hp tm = Inl c \<and> e = Wrap ErrSelectEntity c) \<or>
     (\<exists>m mq ps. getMetadataQuery hp tm = Inr (m, mq) \<and>
        ps = \<lparr>p_owner = owner, p_limit = limit, p_offset = offset,
              p_name = snd (getNameQuery hp name), p_metadata = m\<rparr> \<and>
        ((\<exists>c. fst (NamedQueryContext db (SelectThings mq (fst (getNameQuery hp name))) ps s) = Inl c \<and>
            e = Wrap ErrSelectEntity c) \<or>
         (\<exists>rows. fst (NamedQueryContext db (SelectThings mq (fst (getNameQuery hp name))) ps s) = Inr rows \<and>
            ((\<exists>c. Inl c \<in> set rows \<and> e = Wrap ErrSelectEntity c) \<or>
             (\<exists>i n k md c. Inr (i, n, k, md) \<in> set rows \<and> Unmarshal js md = Inl c \<and>
                e = Wrap ErrViewEntity (Wrap ErrMalformedEntity c)) \<or>
             (\<exists>c. fst (total hp db (CountThings (fst (getNameQuery hp name)) mq) ps
                          (snd (NamedQueryContext db
                                  (SelectThings mq (fst (getNameQuery hp name))) ps s))) = Inl c \<and>
                e = Wrap ErrSelectEntity c))))))"
proof (intro conjI allI impI)
  fix c assume "getMetadataQuery hp tm = Inl c"
  then show "RetrieveAll js hp db owner offset limit name tm s =
               (Inl (Wrap ErrSelectEntity c), s)"
    by (simp add: RetrieveAll_def split: prod.splits)
next
  fix m mq nq nm ps c s1
  assume "getMetadataQuery hp tm = Inr (m, mq) \<and> getNameQuery hp name = (nq, nm) \<and>
      ps = \<lparr>p_owner = owner, p_limit = limit, p_offset = offset, p_name = nm,
            p_metadata = m\<rparr>"
    and "NamedQueryContext db (SelectThings mq nq) ps s = (Inl c, s1)"
  then show "RetrieveAll js hp db owner offset limit name tm s =
               (Inl (Wrap ErrSelectEntity c), s1)"
    by (simp add: RetrieveAll_def)
next
  fix m mq nq nm ps rows s1 pre c post
  assume "getMetadataQuery hp tm = Inr (m, mq) \<and> getNameQuery hp name = (nq, nm) \<and>
      ps = \<lparr>p_owner = owner, p_limit = limit, p_offset = offset, p_name = nm,
            p_metadata = m\<rparr>"
    and "NamedQueryContext db (SelectThings mq nq) ps s = (Inr rows, s1)"
    and r: "rows = pre @ Inl c # post \<and> list_all (row_decodes js) pre"
  moreover from r have "RetrieveAll_loop js owner rows NilSlice = Inl (Wrap ErrSelectEntity c)"
    by (intro RetrieveAll_loop_scan_failure [of rows pre c post]) simp_all
  ultimately show "RetrieveAll js hp db owner offset limit name tm s =
               (Inl (Wrap ErrSelectEntity c), s1)"
    by (simp add: RetrieveAll_def)
next
  fix m mq nq nm ps rows s1 pre i n k md post c
  assume "getMetadataQuery hp tm = Inr (m, mq) \<and> getNameQuery hp name = (nq, nm) \<and>
      ps = \<lparr>p_owner = owner, p_limit = limit, p_offset = offset, p_name = nm,
            p_metadata = m\<rparr>"
    and "NamedQueryContext db (SelectThings mq nq) ps s = (Inr rows, s1)"
    and r: "rows = pre @ Inr (i, n, k, md) # post \<and> list_all (row_decodes js) pre \<and>
              Unmarshal js md = Inl c"
  moreover from r have "RetrieveAll_loop js owner rows NilSlice =
      Inl (Wrap ErrViewEntity (Wrap ErrMalformedEntity c))"
    by (intro RetrieveAll_loop_decode_failure [of rows pre i n k md post]) simp_all
  ultimately show "RetrieveAll js hp db owner offset limit name tm s =
               (Inl (Wrap ErrViewEntity (Wrap ErrMalformedEntity c)), s1)"
    by (simp add: RetrieveAll_def)
next
  fix m mq nq nm ps rows s1 c s2
  assume "getMetadataQuery hp tm = Inr (m, mq) \<and> getNameQuery hp name = (nq, nm) \<and>
      ps = \<lparr>p_owner = owner, p_limit = limit, p_offset = offset, p_name = nm,
            p_metadata = m\<rparr>"
    and "NamedQueryContext db (SelectThings mq nq) ps s = (Inr rows, s1)"
    and r: "list_all (row_decodes js) rows \<and>
              total hp db (CountThings nq mq) ps s1 = (Inl c, s2)"
  moreover from r RetrieveAll_loop_all_decode [of js rows owner NilSlice]
  obtain items where "RetrieveAll_loop js owner rows NilSlice = Inr items" by blast
  ultimately show "RetrieveAll js hp db owner offset limit name tm s =
               (Inl (Wrap ErrSelectEntity c), s2)"
    by (simp add: RetrieveAll_def)
next
  fix e s'
  assume "RetrieveAll js hp db owner offset limit name tm s = (Inl e, s')"
  then show "(\<exists>c. getMetadataQuery hp tm = Inl c \<and> e = Wrap ErrSelectEntity c) \<or>
     (\<exists>m mq ps. getMetadataQuery hp tm = Inr (m, mq) \<and>
        ps = \<lparr>p_owner = owner, p_limit = limit, p_offset = offset,
              p_name = snd (getNameQuery hp name), p_metadata = m\<rparr> \<and>
        ((\<exists>c. fst (NamedQueryContext db (SelectThings mq (fst (getNameQuery hp name))) ps s) = Inl c \<and>
            e = Wrap ErrSelectEntity c) \<or>
         (\<exists>rows. fst (NamedQueryContext db (SelectThings mq (fst (getNameQuery hp name))) ps s) = Inr rows \<and>
            ((\<exists>c. Inl c \<in> set rows \<and> e = Wrap ErrSelectEntity c) \<or>
             (\<exists>i n k md c. Inr (i, n, k, md) \<in> set rows \<and> Unmarshal js md = Inl c \<and>
                e = Wrap ErrViewEntity (Wrap ErrMalformedEntity c)) \<or>
             (\<exists>c. fst (total hp db (CountThings (fst (getNameQuery hp name)) mq) ps
                          (snd (NamedQueryContext db
                                  (SelectThings mq (fst (getNameQuery hp name))) ps s))) = Inl c \<and>
                e = Wrap ErrSelectEntity c)))))"
    by (rule RetrieveAll_error_causes)
qed

theorem RetrieveAll_error_kinds_witness:
  \<open>RetrieveAll compact_json (sample_helpers compact_json) mdb ''alice'' 0 10 [] None failing_store =
     (Inl (Wrap ErrSelectEntity (OtherError ''connection refused'')), store0) \<and>
   RetrieveAll compact_json (sample_helpers compact_json) mdb ''alice'' 0 10 [] None torn_store =
     (Inl (Wrap ErrViewEntity (Wrap ErrMalformedEntity (OtherError ''json: invalid input''))),
      torn_store) \<and>
   RetrieveAll compact_json (sample_helpers compact_json) mdb ''alice'' 0 10 []
       (Some [(''wire'', JChan)]) store0 =
     (Inl (Wrap ErrSelectEntity (OtherError ''json: unsupported type'')), store0)\<close>
proof -
  let ?ps = \<open>\<lparr>p_owner = ''alice'', p_limit = 10, p_offset = 0, p_name = [],
               p_metadata = ''{}''\<rparr>\<close>
  let ?row = \<open>(''0a1b2c3d-0000-4000-8000-00000000000a'', ''lamp'', ''key-a'', ''{"region"'')\<close>
  have g: \<open>getMetadataQuery (sample_helpers compact_json) None = Inr (''{}'', [])\<close>
    by (simp add: sample_helpers_def)
  have n: "getNameQuery (sample_helpers compact_json) [] = ([], [])"
    by (simp add: sample_helpers_def)
  have qf: "NamedQueryContext mdb (SelectThings [] []) ?ps failing_store =
              (Inl (OtherError ''connection refused''), store0)"
    by (simp add: mem_defs store0_def failing_store_def)
  have qt: "NamedQueryContext mdb (SelectThings [] []) ?ps torn_store =
              (Inr [Inr ?row], torn_store)"
    by (simp add: mem_defs owner_listing_def store0_def torn_store_def lamp_row_def)
  have u: \<open>Unmarshal compact_json ''{"region"'' = Inl (OtherError ''json: invalid input'')\<close>
    by (simp add: codec_defs)
  have gc: "getMetadataQuery (sample_helpers compact_json) (Some [(''wire'', JChan)]) =
              Inl (OtherError ''json: unsupported type'')"
    by (simp add: sample_helpers_def codec_defs)
  note t = RetrieveAll_error_kinds
    [where js = compact_json and hp = "sample_helpers compact_json" and db = mdb
      and owner = "''alice''" and offset = 0 and limit = 10 and name = "[]"]
  have a: "RetrieveAll compact_json (sample_helpers compact_json) mdb ''alice'' 0 10 [] None
             failing_store =
     (Inl (Wrap ErrSelectEntity (OtherError ''connection refused'')), store0)"
    using t [where tm = None and s = failing_store, THEN conjunct2, THEN conjunct1, rule_format,
        of "''{}''" "[]" "[]" "[]" ?ps, THEN conjunct1, rule_format,
        of "OtherError ''connection refused''" store0]
      g n qf
    by simp
  have b: "RetrieveAll compact_json (sample_helpers compact_json) mdb ''alice'' 0 10 [] None
             torn_store =
     (Inl (Wrap ErrViewEntity (Wrap ErrMalformedEntity (OtherError ''json: invalid input''))),
      torn_store)"
    using t [where tm = None and s = torn_store, THEN conjunct2, THEN conjunct1, rule_format,
        of "''{}''" "[]" "[]" "[]" ?ps, THEN conjunct2, rule_format,
        of "[Inr ?row]" torn_store, THEN conjunct2, THEN conjunct1, rule_format,
        of "[]" _ _ _ _ "[]" "OtherError ''json: invalid input''"]
      g n qt u
    by simp
  have c: "RetrieveAll compact_json (sample_helpers compact_json) mdb ''alice'' 0 10 []
       (Some [(''wire'', JChan)]) store0 =
     (Inl (Wrap ErrSelectEntity (OtherError ''json: unsupported type'')), store0)"
    by (rule t [where tm = "Some [(''wire'', JChan)]" and s = store0, THEN conjunct1,
          rule_format, OF gc])
  from a b c show ?thesis by blast
qed

section \<open>Remove\<close>

lemma Remove_result:
  "fst (Remove db owner id' s) =
     (case fst (NamedExecContext db DeleteThing
                  \<lparr>dbID = id', dbOwner = owner, dbName = [], dbKey = [], dbMetadata = []\<rparr> s) of
        Inl c \<Rightarrow> Some (Wrap ErrRemoveEntity c)
      | Inr res \<Rightarrow> None)"
  by (simp add: Remove_def split: prod.splits sum.splits)

lemma Remove_mem:
  assumes "valid_uuid id'" and "faults m = []"
  shows "Remove (memdb l) owner id' m =
     (None, m\<lparr>things_table := filter (\<lambda>r. \<not> (dbID r = id' \<and> dbOwner r = owner)) (things_table m)\<rparr>)"
  using assms
  by (simp add: Remove_def memdb_def mem_NamedExecContext_def take_fault_def addressed_def)

lemma Remove_mem_again:
  assumes "valid_uuid id'" and "faults m = []"
  shows "Remove (memdb l) owner id' (snd (Remove (memdb l) owner id' m)) =
     (None, snd (Remove (memdb l) owner id' m))"
proof -
  let ?m1 = "m\<lparr>things_table := filter (\<lambda>r. \<not> (dbID r = id' \<and> dbOwner r = owner)) (things_table m)\<rparr>"
  have "faults ?m1 = []" using assms(2) by simp
  from Remove_mem [OF assms(1) this, of l owner] Remove_mem [OF assms, of l owner]
  show ?thesis by simp
qed

lemma Remove_mem_repeat:
  assumes "valid_uuid id'" and "faults m = []"
  shows "((\<lambda>x. snd (Remove (memdb l) owner id' x)) ^^ Suc n) m =
           snd (Remove (memdb l) owner id' m)"
proof (induction n)
  case 0
  show ?case by simp
next
  case (Suc n)
  have "((\<lambda>x. snd (Remove (memdb l) owner id' x)) ^^ Suc (Suc n)) m =
          snd (Remove (memdb l) owner id'
                 (((\<lambda>x. snd (Remove (memdb l) owner id' x)) ^^ Suc n) m))"
    by simp
  also have "\<dots> = snd (Remove (memdb l) owner id' (snd (Remove (memdb l) owner id' m)))"
    by (simp only: Suc.IH)
  also have "\<dots> = snd (Remove (memdb l) owner id' m)"
    by (simp add: Remove_mem_again [OF assms])
  finally show ?case .
qed

text \<open>
  C7. Whatever the store, \<open>Remove\<close> returns an error exactly when the store fails to run
  the delete statement, and the error is then \<open>ErrRemoveEntity\<close> around the store's
  error; the number of rows the delete matched is never read. On the in-memory store,
  with a well-formed id and no failure of the store itself, \<open>Remove\<close> succeeds whether or
  not a row matches the id and the owner, it leaves the committed rows without any that
  matches, and every further call with the same arguments succeeds and changes nothing.
\<close>

theorem Remove_idempotent:
  "fst (Remove db owner id' s) =
     (case fst (NamedExecContext db DeleteThing
                  \<lparr>dbID = id', dbOwner = owner, dbName = [], dbKey = [], dbMetadata = []\<rparr> s) of
        Inl c \<Rightarrow> Some (Wrap ErrRemoveEntity c)
      | Inr res \<Rightarrow> None) \<and>
   (valid_uuid id' \<and> faults m = [] \<longrightarrow>
      fst (Remove (memdb l) owner id' m) = None \<and>
      things_table (snd (Remove (memdb l) owner id' m)) =
        filter (\<lambda>r. \<not> (dbID r = id' \<and> dbOwner r = owner)) (things_table m) \<and>
      (\<forall>n. fst (Remove (memdb l) owner id'
                  (((\<lambda>x. snd (Remove (memdb l) owner id' x)) ^^ n) m)) = None \<and>
            ((\<lambda>x. snd (Remove (memdb l) owner id' x)) ^^ Suc n) m =
              snd (Remove (memdb l) owner id' m)))"
proof (intro conjI impI allI)
  show "fst (Remove db owner id' s) =
     (case fst (NamedExecContext db DeleteThing
                  \<lparr>dbID = id', dbOwner = owner, dbName = [], dbKey = [], dbMetadata = []\<rparr> s) of
        Inl c \<Rightarrow> Some (Wrap ErrRemoveEntity c)
      | Inr res \<Rightarrow> None)"
    by (rule Remove_result)
next
  assume a: "valid_uuid id' \<and> faults m = []"
  then have v: "valid_uuid id'" and f: "faults m = []" by simp_all
  show "fst (Remove (memdb l) owner id' m) = None"
    by (simp add: Remove_mem [OF v f])
  show "things_table (snd (Remove (memdb l) owner id' m)) =
        filter (\<lambda>r. \<not> (dbID r = id' \<and> dbOwner r = owner)) (things_table m)"
    by (simp add: Remove_mem [OF v f])
  fix n
  show "((\<lambda>x. snd (Remove (memdb l) owner id' x)) ^^ Suc n) m =
              snd (Remove (memdb l) owner id' m)"
    by (rule Remove_mem_repeat [OF v f])
  show "fst (Remove (memdb l) owner id'
                  (((\<lambda>x. snd (Remove (memdb l) owner id' x)) ^^ n) m)) = None"
  proof (cases n)
    case 0
    then show ?thesis by (simp add: Remove_mem [OF v f])
  next
    case (Suc k)
    then show ?thesis
      by (simp only: Remove_mem_repeat [OF v f]) (simp add: Remove_mem_again [OF v f])
  qed
qed

theorem Remove_idempotent_witness:
  "valid_uuid ''0a1b2c3d-0000-4000-8000-00000000000b'' \<and> faults lamp_store = [] \<and>
   fst (Remove mdb ''alice'' ''0a1b2c3d-0000-4000-8000-00000000000b'' lamp_store) = None \<and>
   things_table (snd (Remove mdb ''alice'' ''0a1b2c3d-0000-4000-8000-00000000000b'' lamp_store)) =
     [lamp_row] \<and>
   Remove mdb ''alice'' ''0a1b2c3d-0000-4000-8000-00000000000a'' lamp_store = (None, store0) \<and>
   Remove mdb ''alice'' ''0a1b2c3d-0000-4000-8000-00000000000a'' store0 = (None, store0) \<and>
   fst (Remove mdb ''alice'' ''0a1b2c3d-0000-4000-8000-00000000000b'' failing_store) =
     Some (Wrap ErrRemoveEntity (OtherError ''connection refused''))"
proof -
  have v: "valid_uuid ''0a1b2c3d-0000-4000-8000-00000000000b''"
    by (simp add: valid_uuid_def is_hex_def)
  have f: "faults lamp_store = []"
    by (simp add: lamp_store_def store0_def)
  have d: "fst (NamedExecContext mdb DeleteThing
                  \<lparr>dbID = ''0a1b2c3d-0000-4000-8000-00000000000b'', dbOwner = ''alice'',
                     dbName = [], dbKey = [], dbMetadata = []\<rparr> failing_store) =
             Inl (OtherError ''connection refused'')"
    by (simp add: mem_defs failing_store_def store0_def)
  note t = Remove_idempotent
      [where db = mdb and owner = "''alice''" and id' = "''0a1b2c3d-0000-4000-8000-00000000000b''"
        and s = failing_store and m = lamp_store and l = owner_listing]
  from t v f have a: "fst (Remove mdb ''alice'' ''0a1b2c3d-0000-4000-8000-00000000000b''
                            lamp_store) = None"
    by (simp add: mdb_def)
  from t v f
  have b: "things_table (snd (Remove mdb ''alice'' ''0a1b2c3d-0000-4000-8000-00000000000b''
                                lamp_store)) = [lamp_row]"
    by (simp add: mdb_def lamp_store_def store0_def lamp_row_def)
  from t d
  have e: "fst (Remove mdb ''alice'' ''0a1b2c3d-0000-4000-8000-00000000000b'' failing_store) =
     Some (Wrap ErrRemoveEntity (OtherError ''connection refused''))"
    by simp
  have g: "Remove mdb ''alice'' ''0a1b2c3d-0000-4000-8000-00000000000a'' lamp_store =
             (None, store0)"
    by (simp add: Remove_def mem_defs lamp_store_def store0_def lamp_row_def)
  have h: "Remove mdb ''alice'' ''0a1b2c3d-0000-4000-8000-00000000000a'' store0 = (None, store0)"
    by (simp add: Remove_def mem_defs store0_def)
  from v f a b e g h show ?thesis by blast
qed

end
